theory Spec2Isabelle
  imports Complex_Main
begin

section \<open>JavaScript values\<close>

subsection \<open>Numbers\<close>

text \<open>
  A JavaScript Number is an IEEE 754 binary64 value. The finite ones are rationals, so a
  Number is modelled as a \<open>rat\<close> and every arithmetic operation of the source rounds its
  exact result to the nearest binary64 value, ties to even (\<open>fl\<close>). The exponent range is
  not bounded: every number the modelled code computes is 0 or lies between 0.0125 and 10,
  far from overflow and from the subnormal range. A property that may be \<open>undefined\<close> is a
  \<open>rat option\<close>.
\<close>

definition pow2 :: "int \<Rightarrow> rat" where
  "pow2 e = (if 0 \<le> e then 2 ^ nat e else 1 / 2 ^ nat (- e))"

function bitlen :: "int \<Rightarrow> int" where
  \<comment> \<open>The number of binary digits of a positive integer.\<close>
  "bitlen p = (if p \<le> 0 then 0 else 1 + bitlen (p div 2))"
  by pat_completeness auto
termination
  by (relation "measure nat") auto

declare bitlen.simps [simp del]

primrec num_bits :: "num \<Rightarrow> int" where
  \<comment> \<open>The number of binary digits of a numeral.\<close>
  "num_bits num.One = 1"
| "num_bits (num.Bit0 n) = 1 + num_bits n"
| "num_bits (num.Bit1 n) = 1 + num_bits n"

definition ilog2 :: "rat \<Rightarrow> int" where
  \<comment> \<open>For \<open>x > 0\<close>: the exponent \<open>e\<close> with \<open>2 ^ e \<le> x < 2 ^ (e + 1)\<close>, found from the bit
      lengths of numerator and denominator.\<close>
  "ilog2 x =
     (let (p, q) = quotient_of x;
          d = bitlen p - bitlen q
      in if pow2 d \<le> x then d else d - 1)"

definition round_even :: "rat \<Rightarrow> int" where
  \<comment> \<open>Nearest integer, a tie going to the even neighbour.\<close>
  "round_even q =
     (let n = \<lfloor>q\<rfloor>; r = q - of_int n
      in if r < 1 / 2 then n
         else if 1 / 2 < r then n + 1
         else if even n then n else n + 1)"

definition fl :: "rat \<Rightarrow> rat" where
  \<comment> \<open>Rounding to binary64: 53 significant bits.\<close>
  "fl x =
     (if x = 0 then 0
      else let u = pow2 (ilog2 \<bar>x\<bar> - 52)
           in sgn x * of_int (round_even (\<bar>x\<bar> / u)) * u)"

definition fadd :: "rat \<Rightarrow> rat \<Rightarrow> rat" where
  "fadd a b = fl (a + b)"

definition fmul :: "rat \<Rightarrow> rat \<Rightarrow> rat" where
  "fmul a b = fl (a * b)"

definition fdiv :: "rat \<Rightarrow> rat \<Rightarrow> rat" where
  "fdiv a b = fl (a / b)"

definition Math_round :: "rat \<Rightarrow> rat" where
  \<comment> \<open>\<open>Math.round\<close>: the nearest integer, a tie going up. The result is exact.\<close>
  "Math_round x = of_int \<lfloor>x + 1 / 2\<rfloor>"

definition js_gt :: "rat option \<Rightarrow> rat option \<Rightarrow> bool" where
  \<comment> \<open>\<open>a > b\<close> where an operand may be \<open>undefined\<close>: \<open>undefined\<close> converts to NaN and every
      comparison with NaN is false.\<close>
  "js_gt a b = (case (a, b) of (Some x, Some y) \<Rightarrow> y < x | _ \<Rightarrow> False)"

definition js_ge :: "rat option \<Rightarrow> rat option \<Rightarrow> bool" where
  "js_ge a b = (case (a, b) of (Some x, Some y) \<Rightarrow> y \<le> x | _ \<Rightarrow> False)"

subsection \<open>Strings\<close>

text \<open>
  A JavaScript string is a sequence of UTF-16 code units, each a number from 0 to 65535;
  \<open>length\<close> counts code units. \<open>js\<close> turns an ASCII literal into such a string.
\<close>

type_synonym jsstring = "int list"

definition js :: "string \<Rightarrow> jsstring" where
  "js s = map of_char s"

definition upper_cu :: "int \<Rightarrow> int" where
  "upper_cu c = (if 97 \<le> c \<and> c \<le> 122 then c - 32 else c)"

definition ci_eq :: "int \<Rightarrow> int \<Rightarrow> bool" where
  \<comment> \<open>Equality of code units under the \<open>i\<close> flag (without \<open>u\<close>), for an ASCII pattern
      character \<open>p\<close>: canonicalisation never maps a code unit above 127 to one below 128.\<close>
  "ci_eq p c = (upper_cu p = upper_cu c)"

fun starts_ci :: "jsstring \<Rightarrow> jsstring \<Rightarrow> bool" where
  "starts_ci [] s = True"
| "starts_ci (p # ps) [] = False"
| "starts_ci (p # ps) (c # cs) = (ci_eq p c \<and> starts_ci ps cs)"

fun contains_ci :: "jsstring \<Rightarrow> jsstring \<Rightarrow> bool" where
  \<comment> \<open>\<open>/pattern/i.test(s)\<close> for a literal pattern: it occurs somewhere in \<open>s\<close>.\<close>
  "contains_ci p [] = starts_ci p []"
| "contains_ci p (c # cs) = (starts_ci p (c # cs) \<or> contains_ci p cs)"

definition test_ci :: "string list \<Rightarrow> jsstring \<Rightarrow> bool" where
  \<comment> \<open>\<open>/a|b|c/i.test(s)\<close>: one of the alternatives occurs in \<open>s\<close>.\<close>
  "test_ci alts s = list_ex (\<lambda>a. contains_ci (js a) s) alts"

definition is_ws :: "int \<Rightarrow> bool" where
  \<comment> \<open>The class \<open>\s\<close>, which is also what \<open>trim\<close> removes: white space and line terminators.\<close>
  "is_ws c = (c \<in> {9, 10, 11, 12, 13, 32, 160, 5760, 8232, 8233, 8239, 8287, 12288, 65279}
              \<or> (8192 \<le> c \<and> c \<le> 8202))"

fun starts_try :: "jsstring \<Rightarrow> bool" where
  \<comment> \<open>\<open>try\s*\{\<close> matched at the head of the string.\<close>
  "starts_try (t # r # y # rest) =
     (ci_eq 116 t \<and> ci_eq 114 r \<and> ci_eq 121 y \<and>
      (case dropWhile is_ws rest of [] \<Rightarrow> False | c # _ \<Rightarrow> c = 123))"
| "starts_try _ = False"

fun test_try :: "jsstring \<Rightarrow> bool" where
  "test_try [] = False"
| "test_try (c # cs) = (starts_try (c # cs) \<or> test_try cs)"

definition is_letter :: "int \<Rightarrow> bool" where
  \<comment> \<open>\<open>[a-z]\<close> under the \<open>i\<close> flag.\<close>
  "is_letter c = ((97 \<le> c \<and> c \<le> 122) \<or> (65 \<le> c \<and> c \<le> 90))"

fun test_custom_prop :: "jsstring \<Rightarrow> bool" where
  \<comment> \<open>\<open>/--[a-z]/i.test(s)\<close>\<close>
  "test_custom_prop (a # b # c # rest) =
     ((a = 45 \<and> b = 45 \<and> is_letter c) \<or> test_custom_prop (b # c # rest))"
| "test_custom_prop _ = False"

definition emoji_pair :: "int \<Rightarrow> int \<Rightarrow> bool" where
  \<comment> \<open>A lead and a trail surrogate that encode a code point in U+1F300 .. U+1FAD6.\<close>
  "emoji_pair hi lo =
     (55296 \<le> hi \<and> hi \<le> 56319 \<and> 56320 \<le> lo \<and> lo \<le> 57343 \<and>
      (let cp = 65536 + (hi - 55296) * 1024 + (lo - 56320)
       in 127744 \<le> cp \<and> cp \<le> 129750))"

fun test_emoji :: "jsstring \<Rightarrow> bool" where
  \<comment> \<open>\<open>/[\u{1F300}-\u{1FAD6}]/u.test(s)\<close>: with the \<open>u\<close> flag the class matches whole code
      points, so a match is a surrogate pair in the range.\<close>
  "test_emoji (a # b # rest) = (emoji_pair a b \<or> test_emoji (b # rest))"
| "test_emoji _ = False"

section \<open>The validator\<close>

datatype grade = S | A | B | C | D

datatype issue =
    NoInputElements       \<comment> \<open>'No input elements - low interactivity'\<close>
  | NoEventListeners      \<comment> \<open>'No event listeners - static page'\<close>
  | MissingDoctype        \<comment> \<open>'Missing DOCTYPE'\<close>
  | MissingClosingTags    \<comment> \<open>'Missing closing HTML/body tags'\<close>
  | CodeTooShort          \<comment> \<open>'Code seems too short - might be incomplete'\<close>
  | NoEmbeddedStyles      \<comment> \<open>'No embedded styles'\<close>
  | NoSemanticElements    \<comment> \<open>'No semantic HTML elements'\<close>

text \<open>
  The object \<open>validate\<close> returns has the properties \<open>conatus\<close>, \<open>ratio\<close>, \<open>laetitia\<close>,
  \<open>natura\<close>, \<open>grade\<close> and \<open>issues\<close>; \<open>withTotal\<close> adds \<open>total\<close> to it. The field \<open>total\<close>
  is \<open>None\<close> where the property is \<open>undefined\<close>.
\<close>

record score =
  conatus :: rat
  ratio :: rat
  laetitia :: rat
  natura :: rat
  grade :: grade
  issues :: "issue list"
  total :: "rat option"

text \<open>
  The values that reach \<open>validate\<close> and \<open>refine\<close>: a string, or the object \<open>refine\<close>
  returns, \<open>{ code, report, rounds, improved }\<close> (the iteration chain passes that object
  on as if it were the HTML).
\<close>

datatype jsval =
    JStr jsstring
  | JObj (res_code: jsval) (res_report: score) (res_rounds: nat) (res_improved: bool)

fun ToString :: "jsval \<Rightarrow> jsstring" where
  \<comment> \<open>The conversion \<open>RegExp.prototype.test\<close> applies to its argument.\<close>
  "ToString (JStr s) = s"
| "ToString (JObj c r n i) = js ''[object Object]''"

fun length_prop :: "jsval \<Rightarrow> rat option" where
  \<comment> \<open>\<open>code.length\<close>: \<open>undefined\<close> on an object without that property.\<close>
  "length_prop (JStr s) = Some (of_nat (length s))"
| "length_prop (JObj c r n i) = None"

definition lit :: "rat \<Rightarrow> rat" where
  \<comment> \<open>A decimal literal of the source: the binary64 value nearest to it.\<close>
  "lit x = fl x"

definition add_if :: "bool \<Rightarrow> rat \<Rightarrow> rat \<Rightarrow> rat" where
  \<comment> \<open>\<open>if (b) acc += w\<close>\<close>
  "add_if b acc w = (if b then fadd acc (lit w) else acc)"

definition clamp_score :: "rat \<Rightarrow> rat" where
  \<comment> \<open>\<open>Math.min(1, Math.round(x * 10) / 10)\<close>\<close>
  "clamp_score x = min 1 (fdiv (Math_round (fmul x 10)) 10)"

definition mean4 :: "rat \<Rightarrow> rat \<Rightarrow> rat \<Rightarrow> rat \<Rightarrow> rat" where
  \<comment> \<open>\<open>(conatus + ratio + laetitia + natura) / 4\<close>\<close>
  "mean4 c r l n = fdiv (fadd (fadd (fadd c r) l) n) 4"

definition grade_of :: "rat \<Rightarrow> grade" where
  \<comment> \<open>\<open>avg >= 0.85 ? 'S' : avg >= 0.7 ? 'A' : avg >= 0.55 ? 'B' : avg >= 0.4 ? 'C' : 'D'\<close>\<close>
  "grade_of avg =
     (if lit (85 / 100) \<le> avg then S
      else if lit (7 / 10) \<le> avg then A
      else if lit (55 / 100) \<le> avg then B
      else if lit (4 / 10) \<le> avg then C
      else D)"

text \<open>
  The grade as the specification words it, on exact numbers: S from 0.85, A from 0.70, B
  from 0.55, C from 0.40, otherwise D.
\<close>

definition grade_by_spec :: "rat \<Rightarrow> grade" where
  "grade_by_spec t =
     (if 85 / 100 \<le> t then S
      else if 70 / 100 \<le> t then A
      else if 55 / 100 \<le> t then B
      else if 40 / 100 \<le> t then C
      else D)"

definition validate :: "jsval \<Rightarrow> score" where
  "validate code =
     (let text = ToString code;
          hasForm = test_ci [''<input'', ''<textarea'', ''<select'', ''<button''] text;
          hasEventListeners =
            test_ci [''addEventListener'', ''onclick'', ''onsubmit'', ''onChange''] text;
          hasLocalStorage = test_ci [''localStorage''] text;
          hasCanvas = (test_ci [''<canvas''] text \<or> test_ci [''getContext'', ''Chart''] text);
          conatus0 = add_if hasCanvas (add_if hasLocalStorage
                       (add_if hasEventListeners (add_if hasForm 0 (3 / 10)) (3 / 10))
                       (2 / 10)) (2 / 10);
          hasDoctype = test_ci [''<!DOCTYPE html>''] text;
          hasClosingTags = (test_ci [''</html>''] text \<and> test_ci [''</body>''] text);
          hasScript = test_ci [''<script''] text;
          hasTryCatch = test_try text;
          isLong = js_gt (length_prop code) (Some 2000);
          ratio0 = add_if isLong (add_if hasTryCatch (add_if hasScript
                     (add_if hasClosingTags (add_if hasDoctype 0 (2 / 10)) (2 / 10))
                     (2 / 10)) (2 / 10)) (2 / 10);
          hasStyle = test_ci [''<style''] text;
          hasCustomProps = test_custom_prop text;
          hasTransitions = test_ci [''transition'', ''animation'', ''@keyframes''] text;
          hasGradient = test_ci [''gradient''] text;
          hasMediaQuery = test_ci [''@media''] text;
          laetitia0 = add_if hasMediaQuery (add_if hasGradient (add_if hasTransitions
                        (add_if hasCustomProps (add_if hasStyle 0 (25 / 100)) (2 / 10))
                        (25 / 100)) (15 / 100)) (15 / 100);
          hasSemantic =
            test_ci [''<header'', ''<main'', ''<footer'', ''<nav'', ''<section'', ''<article''] text;
          hasAria = test_ci [''aria-'', ''role=''] text;
          hasPlaceholder = test_ci [''placeholder=''] text;
          hasTitle = test_ci [''<title>''] text;
          hasEmoji = test_emoji text;
          natura0 = add_if hasEmoji (add_if hasTitle (add_if hasPlaceholder
                      (add_if hasAria (add_if hasSemantic 0 (25 / 100)) (2 / 10))
                      (2 / 10)) (2 / 10)) (15 / 100);
          issues =
            (if hasForm then [] else [NoInputElements]) @
            (if hasEventListeners then [] else [NoEventListeners]) @
            (if hasDoctype then [] else [MissingDoctype]) @
            (if hasClosingTags then [] else [MissingClosingTags]) @
            (if isLong then [] else [CodeTooShort]) @
            (if hasStyle then [] else [NoEmbeddedStyles]) @
            (if hasSemantic then [] else [NoSemanticElements]);
          c = clamp_score conatus0;
          r = clamp_score ratio0;
          l = clamp_score laetitia0;
          n = clamp_score natura0;
          avg = mean4 c r l n
      in \<lparr>conatus = c, ratio = r, laetitia = l, natura = n,
          grade = grade_of avg, issues = issues, total = None\<rparr>)"

definition withTotal :: "score \<Rightarrow> score" where
  \<comment> \<open>\<open>score.total = (score.conatus + score.ratio + score.laetitia + score.natura) / 4\<close>\<close>
  "withTotal sc =
     sc\<lparr>total := Some (mean4 (conatus sc) (ratio sc) (laetitia sc) (natura sc))\<rparr>"

section \<open>The language model\<close>

text \<open>
  \<open>route\<close> sends a prompt to a remote model and resolves to the generated text, or rejects.
  What it answers is outside the program, so the model is a parameter: the answer to the
  \<open>k\<close>-th call of a run. The prompts themselves are functions of the earlier answers, so
  every behaviour of the remote model is one such sequence, and the prompt builders
  (\<open>buildRefinementPrompt\<close>, \<open>identifyIssues\<close>) are not modelled.
\<close>

datatype exn = Rejected

type_synonym llm = "nat \<Rightarrow> exn + jsstring"

section \<open>The refiner\<close>

record refine_opts =
  maxRounds :: "nat option"
  threshold :: "rat option"

definition avg_of :: "score \<Rightarrow> rat" where
  \<comment> \<open>\<open>(report.conatus + report.ratio + report.laetitia + report.natura) / 4\<close>\<close>
  "avg_of report = mean4 (conatus report) (ratio report) (laetitia report) (natura report)"

text \<open>
  The \<open>while\<close> loop of \<open>refine\<close>. Its state is \<open>current\<close>, \<open>report\<close>, \<open>avg\<close> and \<open>rounds\<close>;
  \<open>k\<close> counts the calls of \<open>route\<close>. The result is the returned object and the next \<open>k\<close>.
\<close>

function refine_loop ::
  "llm \<Rightarrow> nat \<Rightarrow> rat \<Rightarrow> nat \<Rightarrow> jsval \<Rightarrow> score \<Rightarrow> rat \<Rightarrow> nat \<Rightarrow> exn + (jsval \<times> nat)" where
  "refine_loop route maxR thr k current report avg rounds =
     (if avg < thr \<and> rounds < maxR then
        (case route k of
           Inl e \<Rightarrow> Inl e
         | Inr refined \<Rightarrow>
             (let newReport = validate (JStr refined);
                  newAvg = avg_of newReport
              in if avg \<le> newAvg
                 then refine_loop route maxR thr (k + 1) (JStr refined) newReport newAvg
                        (rounds + 1)
                 else Inr (JObj current report (rounds + 1) (0 < rounds + 1), k + 1)))
      else Inr (JObj current report rounds (0 < rounds), k))"
  by pat_completeness auto
termination
  by (relation "measure (\<lambda>(route, maxR, thr, k, current, report, avg, rounds). maxR - rounds)")
    auto

declare refine_loop.simps [simp del]

definition refine :: "llm \<Rightarrow> nat \<Rightarrow> jsval \<Rightarrow> refine_opts \<Rightarrow> exn + (jsval \<times> nat)" where
  "refine route k code opts =
     (let maxR = (case maxRounds opts of None \<Rightarrow> 2 | Some m \<Rightarrow> if m = 0 then 2 else m);
          thr = (case threshold opts of None \<Rightarrow> lit (75 / 100)
                 | Some t \<Rightarrow> if t = 0 then lit (75 / 100) else t);
          report = validate code
      in refine_loop route maxR thr k code report (avg_of report) 0)"

section \<open>A/B testing\<close>

record variant =
  provider :: string
  code :: jsstring
  vscore :: score

record fallback_opts =
  primary :: "string option"
  fallback :: "string option"
  fthreshold :: "rat option"

definition or_default :: "string option \<Rightarrow> string \<Rightarrow> string" where
  \<comment> \<open>\<open>x || d\<close> on strings: the default replaces \<open>undefined\<close> and the empty string.\<close>
  "or_default x d = (case x of None \<Rightarrow> d | Some s \<Rightarrow> if s = [] then d else s)"

definition fallbackTest :: "llm \<Rightarrow> fallback_opts \<Rightarrow> exn + variant" where
  "fallbackTest route options =
     (let primary' = or_default (primary options) ''gemini'';
          fallback' = or_default (fallback options) ''claude'';
          threshold' = (case fthreshold options of None \<Rightarrow> lit (7 / 10) | Some t \<Rightarrow> t)
      in case route 0 of
           Inl e \<Rightarrow> Inl e
         | Inr code1 \<Rightarrow>
             (let score1 = withTotal (validate (JStr code1));
                  result = \<lparr>provider = primary', code = code1, vscore = score1\<rparr>
              in if js_ge (total score1) (Some threshold') then Inr result
                 else (case route 1 of
                         Inl e \<Rightarrow> Inl e
                       | Inr code2 \<Rightarrow>
                           (let score2 = validate (JStr code2);
                                result2 = \<lparr>provider = fallback', code = code2, vscore = score2\<rparr>
                            in Inr (if js_gt (total score2) (total score1)
                                    then result2 else result)))))"

section \<open>The iteration chain\<close>

record chain_opts =
  maxIterations :: "nat option"
  cthreshold :: "rat option"
  patience :: "nat option"

record history_entry =
  iteration :: nat
  hscore :: rat
  improved :: bool

record chain_result =
  html :: jsval
  cscore :: rat
  iterations :: nat
  history :: "history_entry list"

definition computeTotal :: "score \<Rightarrow> rat" where
  \<comment> \<open>\<open>vals.reduce((a, b) => a + b, 0) / dims.length\<close> over the four dimensions\<close>
  "computeTotal scores =
     fdiv (fadd (fadd (fadd (fadd 0 (conatus scores)) (ratio scores)) (laetitia scores))
             (natura scores)) 4"

text \<open>
  The \<open>for\<close> loop of \<open>chain\<close>. \<open>refine\<close> is called as \<open>refine(html, issues, { model })\<close>: its
  second parameter \<open>opts\<close> receives the string \<open>issues\<close>, on which \<open>maxRounds\<close>,
  \<open>threshold\<close> and \<open>model\<close> are \<open>undefined\<close>, so it runs with its defaults; and what it
  resolves to, the object \<open>{ code, report, rounds, improved }\<close>, becomes \<open>html\<close>.
\<close>

function chain_loop ::
  "llm \<Rightarrow> nat \<Rightarrow> rat \<Rightarrow> nat \<Rightarrow> nat \<Rightarrow> nat \<Rightarrow> jsval \<Rightarrow> jsval \<Rightarrow> rat \<Rightarrow> nat \<Rightarrow>
   history_entry list \<Rightarrow> exn + chain_result" where
  "chain_loop route maxIt thr pat i k html0 bestHtml bestScore noImproveCount hist =
     (if i \<le> maxIt then
        (case refine route k html0 \<lparr>maxRounds = None, threshold = None\<rparr> of
           Inl e \<Rightarrow> Inl e
         | Inr (html1, k1) \<Rightarrow>
             (let score1 = computeTotal (validate html1);
                  improved1 = (bestScore < score1);
                  hist1 = hist @ [\<lparr>iteration = i, hscore = score1, improved = improved1\<rparr>];
                  bestHtml1 = (if improved1 then html1 else bestHtml);
                  bestScore1 = (if improved1 then score1 else bestScore);
                  noImproveCount1 = (if improved1 then 0 else noImproveCount + 1)
              in if thr \<le> bestScore1 \<or> pat \<le> noImproveCount1
                 then Inr \<lparr>html = bestHtml1, cscore = bestScore1,
                            iterations = length hist1, history = hist1\<rparr>
                 else chain_loop route maxIt thr pat (i + 1) k1 html1 bestHtml1 bestScore1
                        noImproveCount1 hist1))
      else Inr \<lparr>html = bestHtml, cscore = bestScore,
                 iterations = length hist, history = hist\<rparr>)"
  by pat_completeness auto
termination
  by (relation "measure (\<lambda>(route, maxIt, thr, pat, i, rest). maxIt + 1 - i)") auto

declare chain_loop.simps [simp del]

definition chain :: "llm \<Rightarrow> chain_opts \<Rightarrow> exn + chain_result" where
  "chain route opts =
     (let maxIt = (case maxIterations opts of None \<Rightarrow> 3 | Some m \<Rightarrow> m);
          thr = (case cthreshold opts of None \<Rightarrow> lit (85 / 100) | Some t \<Rightarrow> t);
          pat = (case patience opts of None \<Rightarrow> 2 | Some p \<Rightarrow> p)
      in case route 0 of
           Inl e \<Rightarrow> Inl e
         | Inr h \<Rightarrow>
             (let score0 = computeTotal (validate (JStr h));
                  hist = [\<lparr>iteration = 0, hscore = score0, improved = True\<rparr>]
              in if thr \<le> score0
                 then Inr \<lparr>html = JStr h, cscore = score0, iterations = 1, history = hist\<rparr>
                 else chain_loop route maxIt thr pat 1 1 (JStr h) (JStr h) score0 0 hist))"

section \<open>Genetic evolution: gene tokenisation\<close>







section \<open>The cache manager\<close>

text \<open>
  The store is a JavaScript \<open>Map\<close>, which keeps its keys in insertion order: an association
  list, oldest entry first. \<open>Date.now()\<close> is a parameter of every operation that reads it.
\<close>

record 'v entry =
  entry_value :: 'v
  expires :: int
  created :: int

record cache_stats =
  hits :: nat
  misses :: nat
  evictions :: nat
  sets :: nat

record ('k, 'v) cache =
  ttl :: int
  maxEntries :: int
  store :: "('k \<times> 'v entry) list"
  stats :: cache_stats

definition DEFAULT_TTL :: int where
  "DEFAULT_TTL = 30 * 60 * 1000"

definition DEFAULT_MAX_ENTRIES :: int where
  "DEFAULT_MAX_ENTRIES = 500"

definition or_int :: "int option \<Rightarrow> int \<Rightarrow> int" where
  \<comment> \<open>\<open>x || d\<close> on numbers: the default replaces \<open>undefined\<close> and 0.\<close>
  "or_int x d = (case x of None \<Rightarrow> d | Some n \<Rightarrow> if n = 0 then d else n)"

definition new_cache :: "int option \<Rightarrow> int option \<Rightarrow> ('k, 'v) cache" where
  "new_cache ttl_opt max_opt =
     \<lparr>ttl = or_int ttl_opt DEFAULT_TTL, maxEntries = or_int max_opt DEFAULT_MAX_ENTRIES,
      store = [], stats = \<lparr>hits = 0, misses = 0, evictions = 0, sets = 0\<rparr>\<rparr>"

definition map_get :: "('k \<times> 'e) list \<Rightarrow> 'k \<Rightarrow> 'e option" where
  "map_get m k = map_of m k"

definition map_delete :: "'k \<Rightarrow> ('k \<times> 'e) list \<Rightarrow> ('k \<times> 'e) list" where
  "map_delete k m = filter (\<lambda>p. fst p \<noteq> k) m"

fun map_set :: "'k \<Rightarrow> 'e \<Rightarrow> ('k \<times> 'e) list \<Rightarrow> ('k \<times> 'e) list" where
  \<comment> \<open>\<open>Map.prototype.set\<close>: a present key keeps its place, a new key goes to the end.\<close>
  "map_set k e [] = [(k, e)]"
| "map_set k e (p # ps) = (if fst p = k then (k, e) # ps else p # map_set k e ps)"

definition cache_get :: "('k, 'v) cache \<Rightarrow> 'k \<Rightarrow> int \<Rightarrow> 'v option \<times> ('k, 'v) cache" where
  \<comment> \<open>\<open>get(key)\<close> at time \<open>now\<close>; \<open>None\<close> is the result \<open>undefined\<close>.\<close>
  "cache_get c key now =
     (case map_get (store c) key of
        None \<Rightarrow> (None, c\<lparr>stats := (stats c)\<lparr>misses := misses (stats c) + 1\<rparr>\<rparr>)
      | Some e \<Rightarrow>
          if expires e < now
          then (None, c\<lparr>store := map_delete key (store c),
                        stats := (stats c)\<lparr>misses := misses (stats c) + 1\<rparr>\<rparr>)
          else (Some (entry_value e),
                c\<lparr>store := map_set key e (map_delete key (store c)),
                  stats := (stats c)\<lparr>hits := hits (stats c) + 1\<rparr>\<rparr>))"

definition cache_set ::
  "('k, 'v) cache \<Rightarrow> 'k \<Rightarrow> 'v \<Rightarrow> int option \<Rightarrow> int \<Rightarrow> int \<Rightarrow> ('k, 'v) cache" where
  \<comment> \<open>\<open>set(key, value, ttl)\<close>; \<open>now\<close> and \<open>now'\<close> are its two readings of the clock.\<close>
  "cache_set c key v ttl_opt now now' =
     (let c1 = (if maxEntries c \<le> int (length (store c)) \<and> map_get (store c) key = None
                then c\<lparr>store := drop 1 (store c),
                       stats := (stats c)\<lparr>evictions := evictions (stats c) + 1\<rparr>\<rparr>
                else c);
          e = \<lparr>entry_value = v, expires = now + or_int ttl_opt (ttl c), created = now'\<rparr>
      in c1\<lparr>store := map_set key e (store c1),
            stats := (stats c1)\<lparr>sets := sets (stats c1) + 1\<rparr>\<rparr>)"

section \<open>The rate limiter\<close>

record limiter =
  windowMs :: int
  maxRequests :: int
  windows :: "string \<Rightarrow> int list option"

record check_result =
  allowed :: bool
  remaining :: int
  resetMs :: int

definition new_limiter :: "int option \<Rightarrow> int option \<Rightarrow> limiter" where
  \<comment> \<open>The constructor: the defaults replace \<open>undefined\<close> only.\<close>
  "new_limiter window_opt max_opt =
     \<lparr>windowMs = (case window_opt of None \<Rightarrow> 60000 | Some w \<Rightarrow> w),
      maxRequests = (case max_opt of None \<Rightarrow> 30 | Some m \<Rightarrow> m),
      windows = (\<lambda>ip. None)\<rparr>"

definition hits_of :: "limiter \<Rightarrow> string \<Rightarrow> int list" where
  \<comment> \<open>\<open>this.windows.get(ip) || []\<close>\<close>
  "hits_of l ip = (case windows l ip of None \<Rightarrow> [] | Some h \<Rightarrow> h)"

definition cleanup :: "int \<Rightarrow> (string \<Rightarrow> int list option) \<Rightarrow> (string \<Rightarrow> int list option)" where
  \<comment> \<open>\<open>for (const [k, v] of this.windows) if (v.every(t => t <= cutoff)) this.windows.delete(k)\<close>\<close>
  "cleanup cutoff w =
     (\<lambda>k. case w k of
             None \<Rightarrow> None
           | Some v \<Rightarrow> if list_all (\<lambda>t. t \<le> cutoff) v then None else Some v)"

definition check :: "limiter \<Rightarrow> string \<Rightarrow> int \<Rightarrow> bool \<Rightarrow> check_result \<times> limiter" where
  \<comment> \<open>\<open>check(ip)\<close>; \<open>now\<close> is \<open>Date.now()\<close> and \<open>sweep\<close> says whether \<open>Math.random() < 0.01\<close>.\<close>
  "check l ip now sweep =
     (let cutoff = now - windowMs l;
          hits0 = filter (\<lambda>t. cutoff < t) (hits_of l ip);
          ok = (int (length hits0) < maxRequests l);
          hits1 = (if ok then hits0 @ [now] else hits0);
          w1 = (windows l)(ip := Some hits1);
          w2 = (if sweep then cleanup cutoff w1 else w1)
      in (\<lparr>allowed = ok,
           remaining = max 0 (maxRequests l - int (length hits1)),
           resetMs = (case hits1 of [] \<Rightarrow> 0 | t # _ \<Rightarrow> t + windowMs l - now)\<rparr>,
          l\<lparr>windows := w2\<rparr>))"

text \<open>
  The head of the request handler of \<open>createApiServer\<close>: the CORS preflight is answered
  before the limiter is asked; a denied request is answered with 429. \<open>None\<close> means that
  the request goes on to authentication and routing.
\<close>

record response =
  status :: nat
  rateLimitRemaining :: "int option"
  retryAfterMs :: "int option"

definition rate_limit_gate ::
  "limiter \<Rightarrow> string \<Rightarrow> string option \<Rightarrow> int \<Rightarrow> bool \<Rightarrow> response option \<times> limiter" where
  "rate_limit_gate l method remoteAddress now sweep =
     (if method = ''OPTIONS''
      then (Some \<lparr>status = 204, rateLimitRemaining = None, retryAfterMs = None\<rparr>, l)
      else let ip = or_default remoteAddress ''unknown'';
               (rl, l1) = check l ip now sweep
           in if \<not> allowed rl
              then (Some \<lparr>status = 429, rateLimitRemaining = Some (remaining rl),
                          retryAfterMs = Some (resetMs rl)\<rparr>, l1)
              else (None, l1))"

text \<open>A run of the limiter over a sequence of checks \<open>(ip, now, sweep)\<close>.\<close>

fun checks :: "limiter \<Rightarrow> (string \<times> int \<times> bool) list \<Rightarrow> check_result list \<times> limiter" where
  "checks l [] = ([], l)"
| "checks l ((ip, now, sweep) # reqs) =
     (let (r, l1) = check l ip now sweep;
          (rs, l2) = checks l1 reqs
      in (r # rs, l2))"

definition granted :: "string \<Rightarrow> (string \<times> int \<times> bool) list \<Rightarrow> check_result list \<Rightarrow> int list" where
  \<comment> \<open>The timestamps of the checks of \<open>ip\<close> that were allowed.\<close>
  "granted ip reqs rs =
     map (\<lambda>(q, r). fst (snd q)) (filter (\<lambda>(q, r). fst q = ip \<and> allowed r) (zip reqs rs))"

section \<open>Lifecycle hooks\<close>

text \<open>
  A thrown value is \<open>null\<close> or \<open>undefined\<close>, or a value with a property \<open>message\<close> that may
  itself be \<open>undefined\<close>.
\<close>

datatype thrown = ThrownNullish | ThrownValue "string option"

datatype js_error = TypeError

record hook_error =
  hook :: string
  handler :: string
  error :: "string option"

text \<open>
  The arrays that \<open>_hookErrors\<close> properties refer to live in a store, so that two state
  objects can share one array: \<open>arrays\<close> gives the contents at each reference and \<open>fresh\<close>
  is the next unused reference. \<open>shared\<close> stands for all other objects that handlers can
  reach from a state and change in place.
\<close>

record 'h hook_store =
  arrays :: "nat \<Rightarrow> hook_error list"
  fresh :: nat
  shared :: 'h

text \<open>
  A state object is its own properties: the payload of the pipeline and the three
  properties the hook bus writes, \<open>_hookErrors\<close> being a reference into the store or
  \<open>undefined\<close>. The copy \<open>{ ...state }\<close> is a copy of this record; it refers to the same
  array.
\<close>

record 'a hook_state =
  payload :: 'a
  hookErrors :: "nat option"
  currentError :: "thrown option"
  failedHook :: "string option"

text \<open>
  A handler is code of a plugin. Called on the state object, it may change the store and
  the object, and then either returns (a new state, or nothing) or throws.
\<close>

datatype 's outcome = Returned "'s option" | Threw thrown

record ('a, 'h) hook_handler =
  name :: string
  fn :: "'h hook_store \<Rightarrow> 'a hook_state \<Rightarrow> ('h hook_store \<times> 'a hook_state) \<times> 'a hook_state outcome"
  priority :: int

type_synonym ('a, 'h) hook_map = "string \<Rightarrow> ('a, 'h) hook_handler list option"

definition ensure_array :: "'h hook_store \<Rightarrow> 'a hook_state \<Rightarrow> 'h hook_store \<times> 'a hook_state \<times> nat" where
  \<comment> \<open>\<open>state._hookErrors = state._hookErrors || []\<close>\<close>
  "ensure_array st state =
     (case hookErrors state of
        Some a \<Rightarrow> (st, state, a)
      | None \<Rightarrow> (st\<lparr>arrays := (arrays st)(fresh st := []), fresh := Suc (fresh st)\<rparr>,
                 state\<lparr>hookErrors := Some (fresh st)\<rparr>, fresh st))"

definition push_error :: "'h hook_store \<Rightarrow> nat \<Rightarrow> hook_error \<Rightarrow> 'h hook_store" where
  \<comment> \<open>\<open>state._hookErrors.push(entry)\<close>\<close>
  "push_error st a e = st\<lparr>arrays := (arrays st)(a := arrays st a @ [e])\<rparr>"

text \<open>
  \<open>run_handlers\<close> is the \<open>for\<close> loop of \<open>run\<close> over the handlers that are left. In the
  \<open>catch\<close> block, reading \<open>err.message\<close> on \<open>null\<close> or \<open>undefined\<close> raises a TypeError, which
  leaves \<open>run\<close>; so does an error that leaves the nested \<open>run('onError', ...)\<close>. The nested
  run works on the copy and its result is dropped, but what it did to the store stays.
\<close>

function run_handlers ::
  "('a, 'h) hook_map \<Rightarrow> string \<Rightarrow> ('a, 'h) hook_handler list \<Rightarrow> 'h hook_store \<Rightarrow> 'a hook_state \<Rightarrow>
   js_error + 'h hook_store \<times> 'a hook_state" where
  "run_handlers hooks hookName [] st state = Inr (st, state)"
| "run_handlers hooks hookName (h # hs) st state =
     (case fn h st state of
        ((st1, state1), Returned result) \<Rightarrow>
          run_handlers hooks hookName hs st1 (case result of None \<Rightarrow> state1 | Some s \<Rightarrow> s)
      | ((st1, state1), Threw err) \<Rightarrow>
          (case ensure_array st1 state1 of
             (st2, state2, a) \<Rightarrow>
               (case err of
                  ThrownNullish \<Rightarrow> Inl TypeError
                | ThrownValue message \<Rightarrow>
                    (let st3 = push_error st2 a
                                 \<lparr>hook = hookName, handler = name h, error = message\<rparr>
                     in if hookName \<noteq> ''onError''
                        then (case (case hooks ''onError'' of
                                      None \<Rightarrow> Inr (st3, state2)
                                    | Some ehs \<Rightarrow>
                                        run_handlers hooks ''onError'' ehs st3
                                          (state2\<lparr>currentError := Some err,
                                                  failedHook := Some hookName\<rparr>)) of
                                Inl e \<Rightarrow> Inl e
                              | Inr (st4, copy) \<Rightarrow> run_handlers hooks hookName hs st4 state2)
                        else run_handlers hooks hookName hs st3 state2))))"
  by pat_completeness auto
termination
  by (relation "measures [\<lambda>(hooks, hookName, hs, st, state). if hookName = ''onError'' then 0 else 1,
                          \<lambda>(hooks, hookName, hs, st, state). length hs]")
    auto

definition run ::
  "('a, 'h) hook_map \<Rightarrow> string \<Rightarrow> 'h hook_store \<Rightarrow> 'a hook_state \<Rightarrow>
   js_error + 'h hook_store \<times> 'a hook_state" where
  "run hooks hookName st state =
     (case hooks hookName of
        None \<Rightarrow> Inr (st, state)
      | Some hs \<Rightarrow> run_handlers hooks hookName hs st state)"

declare checks.simps(2) [simp del]

section \<open>Example runs\<close>

text \<open>Concrete inputs on which the theorems below are evaluated.\<close>

definition primary_html :: jsstring where
  "primary_html = js ''<html><body>basic</body></html>''"

definition fallback_html :: jsstring where
  "fallback_html = js ''<html><body><button>Go</button></body></html>''"

definition boundary_page :: jsstring where
  \<comment> \<open>A page with the axis scores 0.6, 0.4, 0.4 and 0.2.\<close>
  "boundary_page =
     js ''<input onclick=f() aria-label=f style=--c:gradient><script>try{f()}catch{}''"

definition nav_page :: jsstring where
  \<comment> \<open>A page with the axis scores 0.6, 0.4, 0.4 and 0.5.\<close>
  "nav_page =
     js ''<input onclick=f() aria-label=f style=--c:gradient><nav><script>try{f()}catch{}''"

definition route_ab :: llm where
  \<comment> \<open>The primary provider answers first, the fallback provider second.\<close>
  "route_ab k = (if k = 0 then Inr primary_html else Inr fallback_html)"

definition page_one :: jsstring where
  "page_one = js ''<p>one</p>''"

definition page_two :: jsstring where
  "page_two = js ''<p>two</p>''"

definition page_three :: jsstring where
  "page_three = js ''<p>three</p>''"

definition page_button :: jsstring where
  "page_button = js ''<button>''"

definition route_pages :: llm where
  "route_pages k = (if k = 0 then Inr page_two else Inr page_three)"

definition route_chain :: llm where
  "route_chain k = (if k = 0 then Inr page_button else Inr page_two)"

definition unscored :: score where
  \<comment> \<open>What \<open>validate\<close> returns when no indicator is found.\<close>
  "unscored =
     \<lparr>conatus = 0, ratio = 0, laetitia = 0, natura = 0, grade = D,
      issues = [NoInputElements, NoEventListeners, MissingDoctype, MissingClosingTags,
                CodeTooShort, NoEmbeddedStyles, NoSemanticElements],
      total = None\<rparr>"


definition client :: string where
  "client = ''10.0.0.1''"

definition three_requests :: "(string \<times> int \<times> bool) list" where
  "three_requests = [(client, 1000, False), (client, 1001, False), (client, 1002, False)]"

definition two_per_minute :: limiter where
  "two_per_minute = new_limiter None (Some 2)"

definition two_entries :: "(string, nat) cache" where
  "two_entries =
     cache_set (cache_set (new_cache None None) ''a'' 1 (Some 100) 1000 1000)
       ''b'' 2 (Some 100) 1010 1010"

definition empty_store :: "unit hook_store" where
  "empty_store = \<lparr>arrays = (\<lambda>a. []), fresh = 0, shared = ()\<rparr>"

definition nullish_handler :: "(nat, unit) hook_handler" where
  \<comment> \<open>\<open>async () => { throw undefined }\<close>, or a handler returning \<open>Promise.reject()\<close>\<close>
  "nullish_handler =
     \<lparr>name = ''bad'', fn = (\<lambda>st s. ((st, s), Threw ThrownNullish)), priority = 10\<rparr>"

definition counting_handler :: "(nat, unit) hook_handler" where
  \<comment> \<open>\<open>(state) => ({ ...state, payload: state.payload + 1 })\<close>\<close>
  "counting_handler =
     \<lparr>name = ''good'',
      fn = (\<lambda>st s. ((st, s), Returned (Some (s\<lparr>payload := payload s + 1\<rparr>)))),
      priority = 10\<rparr>"

definition failing_hooks :: "(nat, unit) hook_map" where
  "failing_hooks p =
     (if p = ''beforeGenerate'' then Some [nullish_handler, counting_handler] else None)"

definition throwing_handler :: "string \<Rightarrow> string \<Rightarrow> (nat, unit) hook_handler" where
  \<comment> \<open>\<open>() => { throw new Error(msg) }\<close>\<close>
  "throwing_handler n msg =
     \<lparr>name = n, fn = (\<lambda>st s. ((st, s), Threw (ThrownValue (Some msg)))), priority = 10\<rparr>"

definition reporting_hooks :: "(nat, unit) hook_map" where
  \<comment> \<open>A failing handler at \<open>beforeGenerate\<close>, then the counting one; a failing \<open>onError\<close> handler.\<close>
  "reporting_hooks p =
     (if p = ''beforeGenerate'' then Some [throwing_handler ''first'' ''a'', counting_handler]
      else if p = ''onError'' then Some [throwing_handler ''reporter'' ''b'']
      else None)"

definition initial_state :: "nat hook_state" where
  "initial_state = \<lparr>payload = 0, hookErrors = None, currentError = None, failedHook = None\<rparr>"

section \<open>Properties of the number model\<close>

lemma bitlen_zero: "bitlen 0 = 0"
  by (subst bitlen.simps) simp

lemma bitlen_neg: "bitlen (- numeral n) = 0"
  by (subst bitlen.simps) simp

lemma bitlen_step: "0 < p \<Longrightarrow> bitlen p = 1 + bitlen (p div 2)"
  by (subst bitlen.simps) simp

lemma bitlen_numeral: "bitlen (numeral n) = num_bits n"
proof (induction n)
  case One
  have "bitlen 1 = 1 + bitlen (1 div 2)"
    by (rule bitlen_step) simp
  then show ?case by (simp add: bitlen_zero)
next
  case (Bit0 n)
  have "bitlen (numeral (num.Bit0 n)) = 1 + bitlen (numeral (num.Bit0 n) div 2)"
    by (rule bitlen_step) simp
  also have "(numeral (num.Bit0 n) :: int) div 2 = numeral n"
    by simp
  finally show ?case using Bit0 by simp
next
  case (Bit1 n)
  have "bitlen (numeral (num.Bit1 n)) = 1 + bitlen (numeral (num.Bit1 n) div 2)"
    by (rule bitlen_step) simp
  also have "(numeral (num.Bit1 n) :: int) div 2 = numeral n"
    by simp
  finally show ?case using Bit1 by simp
qed

text \<open>Evaluation reads the bit length off the binary numeral.\<close>

lemma bitlen_code [code]:
  "bitlen 0 = 0"
  "bitlen (Int.Pos n) = num_bits n"
  "bitlen (Int.Neg n) = 0"
  by (simp_all add: Int.Pos_def Int.Neg_def bitlen_numeral bitlen_zero bitlen_neg)

lemma pow2_pos: "0 < pow2 e"
  by (simp add: pow2_def)

lemma round_even_nonneg: "0 \<le> q \<Longrightarrow> 0 \<le> round_even q"
  by (simp add: round_even_def Let_def)

lemma fl_nonneg: "0 \<le> x \<Longrightarrow> 0 \<le> fl x"
proof (cases "x = 0")
  case True
  then show ?thesis by (simp add: fl_def)
next
  case False
  assume "0 \<le> x"
  with False have pos: "0 < x" by simp
  define u where "u = pow2 (ilog2 \<bar>x\<bar> - 52)"
  have u: "0 < u" unfolding u_def by (rule pow2_pos)
  have "0 \<le> \<bar>x\<bar> / u" using u by simp
  then have "0 \<le> round_even (\<bar>x\<bar> / u)" by (rule round_even_nonneg)
  then have "0 \<le> (of_int (round_even (\<bar>x\<bar> / u)) :: rat) * u" using u by simp
  then show ?thesis using pos False by (simp add: fl_def Let_def u_def)
qed

lemma add_if_nonneg: "0 \<le> acc \<Longrightarrow> 0 \<le> w \<Longrightarrow> 0 \<le> add_if b acc w"
  by (simp add: add_if_def fadd_def lit_def fl_nonneg)

lemma clamp_score_range: "0 \<le> x \<Longrightarrow> 0 \<le> clamp_score x \<and> clamp_score x \<le> 1"
proof -
  assume "0 \<le> x"
  then have "0 \<le> fmul x 10" by (simp add: fmul_def fl_nonneg)
  then have "0 \<le> Math_round (fmul x 10)" by (simp add: Math_round_def)
  then have "0 \<le> fdiv (Math_round (fmul x 10)) 10" by (simp add: fdiv_def fl_nonneg)
  then show ?thesis by (simp add: clamp_score_def)
qed

text \<open>
  The rounding error. \<open>ilog2\<close> is at most the binary logarithm, so the unit in the last
  place of \<open>x\<close> is at most \<open>x / 2 ^ 52\<close> and \<open>fl x\<close> is within \<open>x / 2 ^ 53\<close> of \<open>x\<close>. The mean of
  four numbers between 0 and 1, computed with four rounded operations, is therefore within
  \<open>5 / 2 ^ 53\<close> of their exact mean, and the comparisons with the four grade bounds come
  out as for the exact mean unless that mean is within \<open>1 / 10 ^ 15\<close> of a bound.
\<close>

lemma bitlen_nonneg: "0 \<le> bitlen p"
proof (induction p rule: bitlen.induct)
  case (1 p)
  show ?case
  proof (cases "p \<le> 0")
    case True
    then show ?thesis by (subst bitlen.simps) simp
  next
    case False
    then show ?thesis using "1.IH" [OF False] by (subst bitlen.simps) simp
  qed
qed

lemma bitlen_bounds:
  "0 < p \<Longrightarrow> 2 ^ nat (bitlen p - 1) \<le> p \<and> p < 2 ^ nat (bitlen p)"
proof (induction p rule: bitlen.induct)
  case (1 p)
  have step: "bitlen p = 1 + bitlen (p div 2)" using "1.prems" by (rule bitlen_step)
  show ?case
  proof (cases "p = 1")
    case True
    then show ?thesis using step by (simp add: bitlen_zero)
  next
    case False
    with "1.prems" have half: "0 < p div 2" by simp
    have "\<not> p \<le> 0" using "1.prems" by simp
    from "1.IH" [OF this half]
    have ih: "2 ^ nat (bitlen (p div 2) - 1) \<le> p div 2" "p div 2 < 2 ^ nat (bitlen (p div 2))"
      by simp_all
    have b: "1 \<le> bitlen (p div 2)"
      using bitlen_step [OF half] bitlen_nonneg [of "p div 2 div 2"] by simp
    define a where "a = nat (bitlen (p div 2) - 1)"
    have n1: "nat (bitlen p - 1) = Suc a"
      using step b by (simp add: a_def)
    have n2: "nat (bitlen p) = Suc (Suc a)"
      using step b by (simp add: a_def)
    have n3: "nat (bitlen (p div 2)) = Suc a"
      using b by (simp add: a_def)
    define A :: int where "A = 2 ^ a"
    have ih': "A \<le> p div 2" "p div 2 < 2 * A"
      using ih unfolding n3 a_def [symmetric] A_def by simp_all
    have d: "2 * (p div 2) \<le> p" "p < 2 * (p div 2) + 2"
      by presburger+
    have "2 * A \<le> p \<and> p < 2 * (2 * A)"
      using ih' d by linarith
    then show ?thesis
      unfolding n1 n2 A_def by simp
  qed
qed

lemma pow2_nat: "0 \<le> e \<Longrightarrow> pow2 e = 2 ^ nat e"
  by (simp add: pow2_def)

lemma pow2_diff: "pow2 (a - b) = pow2 a / pow2 b"
proof -
  have p: "pow2 e = 2 powi e" for e
    by (simp add: pow2_def power_int_def inverse_eq_divide power_divide)
  show ?thesis unfolding p by (rule power_int_diff) simp
qed

lemma ilog2_le: "0 < x \<Longrightarrow> pow2 (ilog2 x) \<le> x"
proof -
  assume pos: "0 < x"
  obtain p q where pq: "quotient_of x = (p, q)" by (cases "quotient_of x")
  have q: "0 < q" using quotient_of_denom_pos [OF pq] .
  have x: "x = of_int p / of_int q" using quotient_of_div [OF pq] .
  have p: "0 < p" using pos q x by (simp add: zero_less_divide_iff)
  define d where "d = bitlen p - bitlen q"
  have il: "ilog2 x = (if pow2 d \<le> x then d else d - 1)"
    by (simp add: ilog2_def pq d_def Let_def)
  show ?thesis
  proof (cases "pow2 d \<le> x")
    case True
    then show ?thesis by (simp add: il)
  next
    case False
    have bp: "0 \<le> bitlen p - 1"
      using bitlen_step [OF p] bitlen_nonneg [of "p div 2"] by simp
    have bq: "0 \<le> bitlen q"
      by (rule bitlen_nonneg)
    have lo: "(2::rat) ^ nat (bitlen p - 1) \<le> of_int p"
    proof -
      have "(of_int (2 ^ nat (bitlen p - 1)) :: rat) \<le> of_int p"
        using bitlen_bounds [OF p] by (simp only: of_int_le_iff)
      then show ?thesis by simp
    qed
    have hi: "(of_int q :: rat) \<le> 2 ^ nat (bitlen q)"
    proof -
      have "(of_int q :: rat) \<le> of_int (2 ^ nat (bitlen q))"
        using bitlen_bounds [OF q] by (simp only: of_int_le_iff) simp
      then show ?thesis by simp
    qed
    have "pow2 (d - 1) = pow2 (bitlen p - 1) / pow2 (bitlen q)"
      using pow2_diff [of "bitlen p - 1" "bitlen q"] by (simp add: d_def algebra_simps)
    also have "\<dots> = 2 ^ nat (bitlen p - 1) / 2 ^ nat (bitlen q)"
      using bp bq by (simp add: pow2_nat)
    also have "\<dots> \<le> of_int p / of_int q"
      using lo hi q p by (intro frac_le) auto
    finally have "pow2 (d - 1) \<le> x" by (simp only: x)
    then show ?thesis using False by (simp only: il if_False)
  qed
qed

lemma round_even_core:
  "0 \<le> r \<Longrightarrow> r < 1 \<Longrightarrow>
   \<bar>(of_int (if r < 1 / 2 then n else if 1 / 2 < r then n + 1
               else if even n then n else n + 1) :: rat) - (of_int n + r)\<bar> \<le> 1 / 2"
  by (auto simp: abs_if)

lemma round_even_err: "\<bar>of_int (round_even q) - q\<bar> \<le> 1 / 2"
proof -
  have "0 \<le> q - of_int \<lfloor>q\<rfloor>" "q - of_int \<lfloor>q\<rfloor> < 1" by linarith+
  from round_even_core [OF this, of "\<lfloor>q\<rfloor>"] show ?thesis
    by (simp add: round_even_def Let_def)
qed

lemma fl_err:
  assumes "0 \<le> x"
  shows "\<bar>fl x - x\<bar> \<le> x / 2 ^ 53"
proof (cases "x = 0")
  case True
  then show ?thesis by (simp add: fl_def)
next
  case False
  with assms have pos: "0 < x" by simp
  define u where "u = pow2 (ilog2 x - 52)"
  have u: "0 < u" unfolding u_def by (rule pow2_pos)
  have "u = pow2 (ilog2 x) / pow2 52" unfolding u_def by (rule pow2_diff)
  also have "\<dots> \<le> x / pow2 52"
    using ilog2_le [OF pos] pow2_pos [of 52] by (simp add: divide_right_mono)
  finally have ule: "u \<le> x / 2 ^ 52" by (simp add: pow2_def)
  have f: "fl x = of_int (round_even (x / u)) * u"
    using pos by (simp add: fl_def Let_def u_def)
  have "fl x - x = (of_int (round_even (x / u)) - x / u) * u"
    using u by (simp add: f algebra_simps)
  then have "\<bar>fl x - x\<bar> = \<bar>of_int (round_even (x / u)) - x / u\<bar> * u"
    using u by (simp add: abs_mult)
  also have "\<dots> \<le> (1 / 2) * u"
    using round_even_err [of "x / u"] u by (intro mult_right_mono) auto
  also have "\<dots> \<le> (1 / 2) * (x / 2 ^ 52)"
    using ule by simp
  finally show ?thesis by simp
qed


lemma fl_err_bound:
  assumes "0 \<le> y" and "y \<le> b"
  shows "\<bar>fl y - y\<bar> \<le> b / 2 ^ 53"
proof -
  have "y / 2 ^ 53 \<le> b / 2 ^ 53" using assms(2) by (simp add: divide_right_mono)
  with fl_err [OF assms(1)] show ?thesis by linarith
qed

lemma mean4_err:
  assumes "0 \<le> c" "c \<le> 1" "0 \<le> r" "r \<le> 1" "0 \<le> l" "l \<le> 1" "0 \<le> n" "n \<le> 1"
  shows "\<bar>mean4 c r l n - (c + r + l + n) / 4\<bar> \<le> 5 / 2 ^ 53"
proof -
  define d :: rat where "d = 1 / 2 ^ 53"
  have d: "0 < d" "d \<le> 1 / 8" by (simp_all add: d_def)
  define s1 where "s1 = fl (c + r)"
  define s2 where "s2 = fl (s1 + l)"
  define s3 where "s3 = fl (s2 + n)"
  have m: "mean4 c r l n = fl (s3 / 4)"
    by (simp add: mean4_def fadd_def fdiv_def s1_def s2_def s3_def)
  have e1: "\<bar>s1 - (c + r)\<bar> \<le> 2 * d"
    unfolding s1_def d_def using fl_err_bound [of "c + r" 2] assms by simp
  have p1: "0 \<le> s1" unfolding s1_def using assms by (intro fl_nonneg) simp
  have b1: "s1 + l \<le> 4" using e1 d assms by linarith
  have e2: "\<bar>s2 - (s1 + l)\<bar> \<le> 4 * d"
    unfolding s2_def d_def using fl_err_bound [of "s1 + l" 4] p1 b1 assms by simp
  have p2: "0 \<le> s2" unfolding s2_def using p1 assms by (intro fl_nonneg) simp
  have b2: "s2 + n \<le> 6" using e2 b1 d assms by linarith
  have e3: "\<bar>s3 - (s2 + n)\<bar> \<le> 6 * d"
    unfolding s3_def d_def using fl_err_bound [of "s2 + n" 6] p2 b2 assms by simp
  have p3: "0 \<le> s3" unfolding s3_def using p2 assms by (intro fl_nonneg) simp
  have b3: "s3 / 4 \<le> 2" using e3 b2 d by linarith
  have e4: "\<bar>fl (s3 / 4) - s3 / 4\<bar> \<le> 2 * d"
    unfolding d_def using fl_err_bound [of "s3 / 4" 2] p3 b3 by simp
  note f = e1 [unfolded abs_le_iff] e2 [unfolded abs_le_iff] e3 [unfolded abs_le_iff]
    e4 [unfolded abs_le_iff]
  have "fl (s3 / 4) - (c + r + l + n) / 4 \<le> 5 * d"
    using f by (elim conjE) (simp add: field_simps)
  moreover have "- (fl (s3 / 4) - (c + r + l + n) / 4) \<le> 5 * d"
    using f by (elim conjE) (simp add: field_simps)
  ultimately have "\<bar>fl (s3 / 4) - (c + r + l + n) / 4\<bar> \<le> 5 * d"
    by (simp only: abs_le_iff simp_thms)
  then show ?thesis by (simp add: m d_def)
qed

lemma lit_err: "0 \<le> t \<Longrightarrow> t \<le> 1 \<Longrightarrow> \<bar>lit t - t\<bar> \<le> 1 / 2 ^ 53"
  unfolding lit_def using fl_err_bound [of t 1] by simp

lemma grade_of_exact:
  assumes m: "\<bar>m - e\<bar> \<le> 5 / 2 ^ 53"
    and away: "1 / 10 ^ 15 \<le> \<bar>e - 85 / 100\<bar>" "1 / 10 ^ 15 \<le> \<bar>e - 70 / 100\<bar>"
      "1 / 10 ^ 15 \<le> \<bar>e - 55 / 100\<bar>" "1 / 10 ^ 15 \<le> \<bar>e - 40 / 100\<bar>"
  shows "grade_of m = grade_by_spec e"
proof -
  have eps: "(6::rat) / 2 ^ 53 < 1 / 10 ^ 15" by simp
  have t: "(lit t \<le> m) = (t \<le> e)" if "0 \<le> t" "t \<le> 1" "1 / 10 ^ 15 \<le> \<bar>e - t\<bar>" for t
    using lit_err [OF that(1,2)] that(3) m eps by (simp only: abs_le_iff abs_if split: if_splits) linarith+
  have t1: "(lit (85 / 100) \<le> m) = (85 / 100 \<le> e)" using away by (intro t) simp_all
  have t2: "(lit (7 / 10) \<le> m) = (70 / 100 \<le> e)" using t [of "7 / 10"] away by simp
  have t3: "(lit (55 / 100) \<le> m) = (55 / 100 \<le> e)" using away by (intro t) simp_all
  have t4: "(lit (4 / 10) \<le> m) = (40 / 100 \<le> e)" using t [of "4 / 10"] away by simp
  show ?thesis
    unfolding grade_of_def grade_by_spec_def t1 t2 t3 t4 by (rule refl)
qed

text \<open>
  The scores are binary64 numbers: \<open>Math.min(1, Math.round(x * 10) / 10)\<close> is 1 or one of
  the quotients \<open>k / 10\<close> for \<open>k\<close> from 0 to 9, and rounding it again changes nothing.
\<close>

lemma fl_one: "fl 1 = 1"
  by code_simp

lemma tenths_representable:
  "fl (min 1 (fdiv 0 10)) = min 1 (fdiv 0 10)"
  "fl (min 1 (fdiv 1 10)) = min 1 (fdiv 1 10)"
  "fl (min 1 (fdiv 2 10)) = min 1 (fdiv 2 10)"
  "fl (min 1 (fdiv 3 10)) = min 1 (fdiv 3 10)"
  "fl (min 1 (fdiv 4 10)) = min 1 (fdiv 4 10)"
  "fl (min 1 (fdiv 5 10)) = min 1 (fdiv 5 10)"
  "fl (min 1 (fdiv 6 10)) = min 1 (fdiv 6 10)"
  "fl (min 1 (fdiv 7 10)) = min 1 (fdiv 7 10)"
  "fl (min 1 (fdiv 8 10)) = min 1 (fdiv 8 10)"
  "fl (min 1 (fdiv 9 10)) = min 1 (fdiv 9 10)"
  by code_simp+

lemma fdiv_ten_ge_one:
  assumes "10 \<le> k"
  shows "1 \<le> fdiv (of_int k) 10"
proof (cases "k = 10")
  case True
  then show ?thesis by (simp add: fdiv_def fl_one)
next
  case False
  with assms have k: "11 \<le> k" by simp
  define y :: rat where "y = of_int k / 10"
  have y: "11 / 10 \<le> y" using k by (simp add: y_def)
  have "\<bar>fl y - y\<bar> \<le> y / 2 ^ 53" using y by (intro fl_err) simp
  then have "y - y / 2 ^ 53 \<le> fl y" by (simp only: abs_le_iff) linarith
  moreover have "y / 2 ^ 53 \<le> y / 11" using y by (intro divide_left_mono) simp_all
  ultimately have "1 \<le> fl y" using y by linarith
  then show ?thesis by (simp add: fdiv_def y_def)
qed

lemma clamp_score_representable:
  assumes "0 \<le> x"
  shows "fl (clamp_score x) = clamp_score x"
proof -
  define k where "k = \<lfloor>fmul x 10 + 1 / 2\<rfloor>"
  have "0 \<le> fmul x 10" using assms by (simp add: fmul_def fl_nonneg)
  then have k0: "0 \<le> k" by (simp add: k_def)
  have c: "clamp_score x = min 1 (fdiv (of_int k) 10)"
    by (simp add: clamp_score_def Math_round_def k_def)
  show ?thesis
  proof (cases "k \<le> 9")
    case True
    with k0 have "k = 0 \<or> k = 1 \<or> k = 2 \<or> k = 3 \<or> k = 4 \<or> k = 5 \<or> k = 6 \<or> k = 7 \<or> k = 8 \<or> k = 9"
      by presburger
    then show ?thesis
      unfolding c
      by (elim disjE) (simp_all only: of_int_numeral of_int_0 of_int_1 tenths_representable)
  next
    case False
    then have "1 \<le> fdiv (of_int k) 10" by (intro fdiv_ten_ge_one) simp
    then show ?thesis unfolding c by (simp add: min_def fl_one)
  qed
qed

text \<open>Some binary64 facts, as a check of the rounding model.\<close>

lemma binary64_examples:
  "lit (3 / 10) = 5404319552844595 / 18014398509481984"
  "fadd (lit (1 / 10)) (lit (2 / 10)) = 5404319552844596 / 18014398509481984"
  "fadd (lit (1 / 10)) (lit (2 / 10)) \<noteq> lit (3 / 10)"
  "fdiv 1 3 = 6004799503160661 / 18014398509481984"
  "fmul (lit (45 / 100)) 10 = 9 / 2"
  "Math_round (9 / 2) = 5"
  by code_simp+

section \<open>Properties of the validator\<close>

lemma validate_conatus: "0 \<le> conatus (validate v) \<and> conatus (validate v) \<le> 1"
  by (simp add: validate_def Let_def clamp_score_range add_if_nonneg)

lemma validate_ratio: "0 \<le> ratio (validate v) \<and> ratio (validate v) \<le> 1"
  by (simp add: validate_def Let_def clamp_score_range add_if_nonneg)

lemma validate_laetitia: "0 \<le> laetitia (validate v) \<and> laetitia (validate v) \<le> 1"
  by (simp add: validate_def Let_def clamp_score_range add_if_nonneg)

lemma validate_natura: "0 \<le> natura (validate v) \<and> natura (validate v) \<le> 1"
  by (simp add: validate_def Let_def clamp_score_range add_if_nonneg)

lemma validate_grade: "grade (validate v) = grade_of (avg_of (validate v))"
  by (simp add: validate_def Let_def avg_of_def)

lemma validate_total: "total (validate v) = None"
  by (simp add: validate_def Let_def)

text \<open>
  The first axis score is a binary64 number, so the \<open>0 +\<close> that starts the sum of
  \<open>computeTotal\<close> changes nothing: the iteration chain computes the same mean.
\<close>

lemma validate_conatus_representable: "fl (conatus (validate v)) = conatus (validate v)"
  by (simp add: validate_def Let_def clamp_score_representable add_if_nonneg)

lemma computeTotal_validate:
  "computeTotal (validate v) =
     mean4 (conatus (validate v)) (ratio (validate v)) (laetitia (validate v)) (natura (validate v))"
  by (simp add: computeTotal_def mean4_def fadd_def validate_conatus_representable)

text \<open>
  Claim C2, as the code has it. The object \<open>validate\<close> returns carries no \<open>total\<close>: the
  property is \<open>undefined\<close> on it, for every HTML string. \<open>withTotal\<close>, which the A/B
  strategies apply to the result, adds it, and then \<open>total\<close> is the mean
  \<open>(conatus + ratio + laetitia + natura) / 4\<close> as the program's arithmetic computes it; the
  four axis scores, the grade and the issues stay as they were. \<open>computeTotal\<close> of the
  iteration chain gives the same mean.
\<close>

theorem withTotal_adds_mean:
  "total (validate (JStr h)) = None \<and>
   total (withTotal (validate (JStr h))) =
     Some (mean4 (conatus (validate (JStr h))) (ratio (validate (JStr h)))
             (laetitia (validate (JStr h))) (natura (validate (JStr h)))) \<and>
   conatus (withTotal (validate (JStr h))) = conatus (validate (JStr h)) \<and>
   ratio (withTotal (validate (JStr h))) = ratio (validate (JStr h)) \<and>
   laetitia (withTotal (validate (JStr h))) = laetitia (validate (JStr h)) \<and>
   natura (withTotal (validate (JStr h))) = natura (validate (JStr h)) \<and>
   grade (withTotal (validate (JStr h))) = grade (validate (JStr h)) \<and>
   issues (withTotal (validate (JStr h))) = issues (validate (JStr h)) \<and>
   computeTotal (validate (JStr h)) =
     mean4 (conatus (validate (JStr h))) (ratio (validate (JStr h)))
       (laetitia (validate (JStr h))) (natura (validate (JStr h)))"
  by (simp add: validate_total withTotal_def computeTotal_validate)

text \<open>
  Claim C2 as stated fails: on the page \<open><html><body>basic</body></html>\<close> the result
  of \<open>validate\<close> has no \<open>total\<close>.
\<close>

theorem validate_result_has_no_total:
  "total (validate (JStr primary_html)) = None"
  by (rule validate_total)

text \<open>
  Claim C4, as the code has it. For every HTML string, each of the four axis scores
  \<open>validate\<close> returns lies between 0 and 1. The grade is the piecewise function of the mean
  that binary64 arithmetic computes, \<open>((conatus + ratio) + laetitia + natura) / 4\<close> with
  every sum and the quotient rounded, compared with the binary64 numbers nearest to 0.85,
  0.70, 0.55 and 0.40: S from the first, A from the second, B from the third, C from the
  fourth, D below. This is the grade the specification gives for the exact mean of the four
  scores whenever that mean is at least \<open>1 / 10 ^ 15\<close> away from each of the four bounds.
\<close>

theorem validate_axes_and_grade:
  "0 \<le> conatus (validate (JStr h)) \<and> conatus (validate (JStr h)) \<le> 1 \<and>
   0 \<le> ratio (validate (JStr h)) \<and> ratio (validate (JStr h)) \<le> 1 \<and>
   0 \<le> laetitia (validate (JStr h)) \<and> laetitia (validate (JStr h)) \<le> 1 \<and>
   0 \<le> natura (validate (JStr h)) \<and> natura (validate (JStr h)) \<le> 1 \<and>
   grade (validate (JStr h)) =
     (let mean = fl (fl (fl (fl (conatus (validate (JStr h)) + ratio (validate (JStr h))) +
                            laetitia (validate (JStr h))) + natura (validate (JStr h))) / 4)
      in if fl (85 / 100) \<le> mean then S
         else if fl (70 / 100) \<le> mean then A
         else if fl (55 / 100) \<le> mean then B
         else if fl (40 / 100) \<le> mean then C
         else D) \<and>
   (let exact = (conatus (validate (JStr h)) + ratio (validate (JStr h)) +
                 laetitia (validate (JStr h)) + natura (validate (JStr h))) / 4
    in 1 / 10 ^ 15 \<le> \<bar>exact - 85 / 100\<bar> \<and> 1 / 10 ^ 15 \<le> \<bar>exact - 70 / 100\<bar> \<and>
       1 / 10 ^ 15 \<le> \<bar>exact - 55 / 100\<bar> \<and> 1 / 10 ^ 15 \<le> \<bar>exact - 40 / 100\<bar> \<longrightarrow>
       grade (validate (JStr h)) = grade_by_spec exact)"
proof -
  let ?v = "validate (JStr h)"
  note r = validate_conatus [of "JStr h"] validate_ratio [of "JStr h"]
    validate_laetitia [of "JStr h"] validate_natura [of "JStr h"]
  have g: "grade ?v = grade_of (mean4 (conatus ?v) (ratio ?v) (laetitia ?v) (natura ?v))"
    using validate_grade [of "JStr h"] by (simp add: avg_of_def)
  have m: "\<bar>mean4 (conatus ?v) (ratio ?v) (laetitia ?v) (natura ?v) -
            (conatus ?v + ratio ?v + laetitia ?v + natura ?v) / 4\<bar> \<le> 5 / 2 ^ 53"
    using r by (intro mean4_err) simp_all
  have 1: "grade ?v =
     (let mean = fl (fl (fl (fl (conatus ?v + ratio ?v) + laetitia ?v) + natura ?v) / 4)
      in if fl (85 / 100) \<le> mean then S
         else if fl (70 / 100) \<le> mean then A
         else if fl (55 / 100) \<le> mean then B
         else if fl (40 / 100) \<le> mean then C
         else D)"
    unfolding g by (simp add: grade_of_def mean4_def fadd_def fdiv_def lit_def Let_def)
  have 2: "(let exact = (conatus ?v + ratio ?v + laetitia ?v + natura ?v) / 4
    in 1 / 10 ^ 15 \<le> \<bar>exact - 85 / 100\<bar> \<and> 1 / 10 ^ 15 \<le> \<bar>exact - 70 / 100\<bar> \<and>
       1 / 10 ^ 15 \<le> \<bar>exact - 55 / 100\<bar> \<and> 1 / 10 ^ 15 \<le> \<bar>exact - 40 / 100\<bar> \<longrightarrow>
       grade ?v = grade_by_spec exact)"
    unfolding g Let_def using grade_of_exact [OF m] by blast
  show ?thesis
    using r 1 2 by (intro conjI) (simp_all only: )
qed

text \<open>The validator on the example pages, and on the object \<open>refine\<close> returns.\<close>

lemma validate_object: "validate (JObj c r n b) = unscored"
proof -
  have "validate (JObj c r n b) = validate (JObj (JStr []) unscored 0 False)"
    unfolding validate_def ToString.simps length_prop.simps by (rule refl)
  also have "\<dots> = unscored"
    by code_simp
  finally show ?thesis .
qed

lemma validate_page_two: "validate (JStr page_two) = unscored"
  by code_simp

lemma validate_page_button:
  "validate (JStr page_button) =
     unscored\<lparr>conatus := lit (3 / 10), issues := tl (issues unscored)\<rparr>"
  by code_simp

lemma example_means:
  "avg_of unscored = 0"
  "avg_of (unscored\<lparr>conatus := lit (3 / 10), issues := tl (issues unscored)\<rparr>) = lit (75 / 1000)"
  "0 < lit (75 / 1000)"
  "lit (75 / 1000) < lit (75 / 100)"
  "0 < lit (75 / 100)"
  by code_simp+

lemma validate_primary:
  "validate (JStr primary_html) =
     \<lparr>conatus = 0, ratio = lit (2 / 10), laetitia = 0, natura = 0, grade = D,
      issues = [NoInputElements, NoEventListeners, MissingDoctype, CodeTooShort,
                NoEmbeddedStyles, NoSemanticElements],
      total = None\<rparr>"
  by code_simp

lemma validate_fallback:
  "validate (JStr fallback_html) =
     \<lparr>conatus = lit (3 / 10), ratio = lit (2 / 10), laetitia = 0, natura = 0, grade = D,
      issues = [NoEventListeners, MissingDoctype, CodeTooShort, NoEmbeddedStyles,
                NoSemanticElements],
      total = None\<rparr>"
  by code_simp

lemma means:
  "mean4 0 (lit (2 / 10)) 0 0 = lit (5 / 100)"
  "mean4 (lit (3 / 10)) (lit (2 / 10)) 0 0 = lit (125 / 1000)"
  "lit (5 / 100) < lit (7 / 10)"
  "lit (5 / 100) < lit (125 / 1000)"
  by code_simp+

lemma validate_boundary:
  "validate (JStr boundary_page) =
     \<lparr>conatus = lit (6 / 10), ratio = lit (4 / 10), laetitia = lit (4 / 10), natura = lit (2 / 10),
      grade = D,
      issues = [MissingDoctype, MissingClosingTags, CodeTooShort, NoEmbeddedStyles,
                NoSemanticElements],
      total = None\<rparr>"
  by code_simp

lemma validate_nav:
  "validate (JStr nav_page) =
     \<lparr>conatus = lit (6 / 10), ratio = lit (4 / 10), laetitia = lit (4 / 10), natura = lit (5 / 10),
      grade = C,
      issues = [MissingDoctype, MissingClosingTags, CodeTooShort, NoEmbeddedStyles],
      total = None\<rparr>"
  by code_simp

lemma exact_means:
  "1 / 10 ^ 15 \<le> \<bar>(lit (6 / 10) + lit (4 / 10) + lit (4 / 10) + lit (5 / 10)) / 4 - 85 / 100\<bar>"
  "1 / 10 ^ 15 \<le> \<bar>(lit (6 / 10) + lit (4 / 10) + lit (4 / 10) + lit (5 / 10)) / 4 - 70 / 100\<bar>"
  "1 / 10 ^ 15 \<le> \<bar>(lit (6 / 10) + lit (4 / 10) + lit (4 / 10) + lit (5 / 10)) / 4 - 55 / 100\<bar>"
  "1 / 10 ^ 15 \<le> \<bar>(lit (6 / 10) + lit (4 / 10) + lit (4 / 10) + lit (5 / 10)) / 4 - 40 / 100\<bar>"
  "grade_by_spec ((lit (6 / 10) + lit (4 / 10) + lit (4 / 10) + lit (5 / 10)) / 4) = C"
  "1 / 10 ^ 15 \<le> \<bar>(0 + lit (2 / 10) + 0 + 0) / 4 - 85 / 100\<bar>"
  "1 / 10 ^ 15 \<le> \<bar>(0 + lit (2 / 10) + 0 + 0) / 4 - 70 / 100\<bar>"
  "1 / 10 ^ 15 \<le> \<bar>(0 + lit (2 / 10) + 0 + 0) / 4 - 55 / 100\<bar>"
  "1 / 10 ^ 15 \<le> \<bar>(0 + lit (2 / 10) + 0 + 0) / 4 - 40 / 100\<bar>"
  "grade_by_spec ((0 + lit (2 / 10) + 0 + 0) / 4) = D"
  "40 / 100 \<le> (lit (6 / 10) + lit (4 / 10) + lit (4 / 10) + lit (2 / 10)) / 4"
  "grade_by_spec ((lit (6 / 10) + lit (4 / 10) + lit (4 / 10) + lit (2 / 10)) / 4) = C"
  "\<bar>(lit (6 / 10) + lit (4 / 10) + lit (4 / 10) + lit (2 / 10)) / 4 - 40 / 100\<bar> < 1 / 10 ^ 15"
  by code_simp+

text \<open>
  Two pages away from the bounds: one with the scores 0.6, 0.4, 0.4 and 0.5, graded C,
  and one with the scores 0, 0.2, 0 and 0, graded D, each as the specification grades the
  exact mean.
\<close>

theorem validate_grade_witness:
  "(1 / 10 ^ 15 \<le> \<bar>(lit (6 / 10) + lit (4 / 10) + lit (4 / 10) + lit (5 / 10)) / 4 - 85 / 100\<bar> \<and>
    1 / 10 ^ 15 \<le> \<bar>(lit (6 / 10) + lit (4 / 10) + lit (4 / 10) + lit (5 / 10)) / 4 - 70 / 100\<bar> \<and>
    1 / 10 ^ 15 \<le> \<bar>(lit (6 / 10) + lit (4 / 10) + lit (4 / 10) + lit (5 / 10)) / 4 - 55 / 100\<bar> \<and>
    1 / 10 ^ 15 \<le> \<bar>(lit (6 / 10) + lit (4 / 10) + lit (4 / 10) + lit (5 / 10)) / 4 - 40 / 100\<bar>) \<and>
   grade (validate (JStr nav_page)) =
     grade_by_spec ((lit (6 / 10) + lit (4 / 10) + lit (4 / 10) + lit (5 / 10)) / 4) \<and>
   grade_by_spec ((lit (6 / 10) + lit (4 / 10) + lit (4 / 10) + lit (5 / 10)) / 4) = C \<and>
   (1 / 10 ^ 15 \<le> \<bar>(0 + lit (2 / 10) + 0 + 0) / 4 - 85 / 100\<bar> \<and>
    1 / 10 ^ 15 \<le> \<bar>(0 + lit (2 / 10) + 0 + 0) / 4 - 70 / 100\<bar> \<and>
    1 / 10 ^ 15 \<le> \<bar>(0 + lit (2 / 10) + 0 + 0) / 4 - 55 / 100\<bar> \<and>
    1 / 10 ^ 15 \<le> \<bar>(0 + lit (2 / 10) + 0 + 0) / 4 - 40 / 100\<bar>) \<and>
   grade (validate (JStr primary_html)) = grade_by_spec ((0 + lit (2 / 10) + 0 + 0) / 4) \<and>
   grade_by_spec ((0 + lit (2 / 10) + 0 + 0) / 4) = D"
proof -
  have a: "grade (validate (JStr nav_page)) =
     grade_by_spec ((lit (6 / 10) + lit (4 / 10) + lit (4 / 10) + lit (5 / 10)) / 4)"
    using validate_axes_and_grade [of nav_page] exact_means(1-4)
    unfolding Let_def validate_nav by (simp only: score.simps simp_thms)
  have b: "grade (validate (JStr primary_html)) = grade_by_spec ((0 + lit (2 / 10) + 0 + 0) / 4)"
    using validate_axes_and_grade [of primary_html] exact_means(6-9)
    unfolding Let_def validate_primary by (simp only: score.simps simp_thms)
  show ?thesis
    using a b exact_means(1-10) by (intro conjI) (simp_all only: )
qed

text \<open>
  Claim C4 as stated fails at a bound. The page
  \<open><input onclick=f() aria-label=f style=--c:gradient><script>try{f()}catch{}\<close> has the
  scores 0.6, 0.4, 0.4 and 0.2. Their mean is 0.4 (and the exact mean of the four binary64
  numbers is not below 0.4), which the specification grades C; the sum computed in
  binary64 is 1.5999999999999999, the mean 0.39999999999999997, and \<open>validate\<close> returns D.
\<close>

theorem validate_grade_at_boundary:
  "conatus (validate (JStr boundary_page)) = lit (6 / 10) \<and>
   ratio (validate (JStr boundary_page)) = lit (4 / 10) \<and>
   laetitia (validate (JStr boundary_page)) = lit (4 / 10) \<and>
   natura (validate (JStr boundary_page)) = lit (2 / 10) \<and>
   40 / 100 \<le> (lit (6 / 10) + lit (4 / 10) + lit (4 / 10) + lit (2 / 10)) / 4 \<and>
   grade_by_spec ((lit (6 / 10) + lit (4 / 10) + lit (4 / 10) + lit (2 / 10)) / 4) = C \<and>
   grade (validate (JStr boundary_page)) = D"
  using exact_means(11,12) by (simp add: validate_boundary)

section \<open>Properties of the fallback test\<close>

text \<open>
  The second result is built from \<open>validate(code2)\<close> without \<open>withTotal\<close>, so its \<open>total\<close>
  is \<open>undefined\<close> and the comparison \<open>score2.total > score.total\<close> is false: whatever the
  fallback provider answers, \<open>fallbackTest\<close> returns the primary result.
\<close>

lemma fallbackTest_result:
  assumes "route 0 = Inr code1" and "fallbackTest route options = Inr r"
  shows "r = \<lparr>provider = or_default (primary options) ''gemini'', code = code1,
              vscore = withTotal (validate (JStr code1))\<rparr>"
  using assms
  by (auto simp: fallbackTest_def Let_def js_gt_def validate_total split: sum.splits if_splits)

text \<open>
  Claim C1 fails on the code. The primary provider answers a page with total 0.05, below
  the threshold 0.7, and the fallback provider a page with total 0.125; \<open>fallbackTest\<close>
  returns the primary result, not the higher of the two.
\<close>

theorem fallbackTest_keeps_worse_primary:
  "fallbackTest route_ab \<lparr>primary = None, fallback = None, fthreshold = None\<rparr> =
     Inr \<lparr>provider = ''gemini'', code = primary_html,
          vscore = withTotal (validate (JStr primary_html))\<rparr> \<and>
   total (withTotal (validate (JStr primary_html))) = Some (lit (5 / 100)) \<and>
   total (withTotal (validate (JStr fallback_html))) = Some (lit (125 / 1000)) \<and>
   lit (5 / 100) < lit (7 / 10) \<and> lit (5 / 100) < lit (125 / 1000)"
proof -
  have run: "fallbackTest route_ab \<lparr>primary = None, fallback = None, fthreshold = None\<rparr> =
     Inr \<lparr>provider = ''gemini'', code = primary_html,
          vscore = withTotal (validate (JStr primary_html))\<rparr>"
    using means
    by (simp add: fallbackTest_def route_ab_def Let_def validate_primary validate_fallback
        withTotal_def js_ge_def js_gt_def or_default_def)
  show ?thesis
    using run means
    by (simp add: validate_primary validate_fallback withTotal_def)
qed

section \<open>Properties of the refiner\<close>

lemma refine_loop_never_worse:
  "refine_loop route maxR thr k current report avg rounds = Inr (JObj c rep n b, k') \<Longrightarrow>
   avg_of report = avg \<Longrightarrow> avg \<le> avg_of rep"
proof (induction route maxR thr k current report avg rounds rule: refine_loop.induct)
  case (1 route maxR thr k current report avg rounds)
  show ?case
  proof (cases "avg < thr \<and> rounds < maxR")
    case False
    with "1.prems" show ?thesis
      by (subst (asm) refine_loop.simps) auto
  next
    case True
    then show ?thesis
      using "1.prems" "1.IH"
      by (subst (asm) refine_loop.simps)
        (fastforce simp: Let_def split: sum.splits if_splits)
  qed
qed

text \<open>
  Claim C3, as the code has it. In a round of the refinement loop (the current average is
  below the threshold, rounds are left, and the model answered \<open>refined\<close>), the
  replacement becomes the current HTML and the loop goes on exactly when its average is
  not below the current one; on a lower average the loop stops and keeps the current
  HTML. In particular a replacement with an equal average is accepted.
\<close>

theorem refine_round_accepts_not_worse:
  assumes "avg < thr" and "rounds < maxR" and "route k = Inr refined"
  shows "(avg \<le> avg_of (validate (JStr refined)) \<longrightarrow>
            refine_loop route maxR thr k current report avg rounds =
            refine_loop route maxR thr (k + 1) (JStr refined) (validate (JStr refined))
              (avg_of (validate (JStr refined))) (rounds + 1)) \<and>
         (avg_of (validate (JStr refined)) < avg \<longrightarrow>
            refine_loop route maxR thr k current report avg rounds =
            Inr (JObj current report (rounds + 1) True, k + 1))"
  using assms by (subst refine_loop.simps, subst refine_loop.simps) (simp add: Let_def)

lemma refine_loop_returns_object:
  "refine_loop route maxR thr k current report avg rounds = Inr (v, k') \<Longrightarrow>
   \<exists>c rep n b. v = JObj c rep n b"
proof (induction route maxR thr k current report avg rounds rule: refine_loop.induct)
  case (1 route maxR thr k current report avg rounds)
  show ?case
  proof (cases "avg < thr \<and> rounds < maxR")
    case False
    with "1.prems" show ?thesis
      by (subst (asm) refine_loop.simps) auto
  next
    case True
    then show ?thesis
      using "1.prems" "1.IH"
      by (subst (asm) refine_loop.simps)
        (fastforce simp: Let_def split: sum.splits if_splits)
  qed
qed

lemma refine_loop_returns:
  "\<forall>j. \<exists>x. route j = Inr x \<Longrightarrow>
   \<exists>v k'. refine_loop route maxR thr k current report avg rounds = Inr (v, k')"
proof (induction route maxR thr k current report avg rounds rule: refine_loop.induct)
  case (1 route maxR thr k current report avg rounds)
  from "1.prems" obtain x where x: "route k = Inr x" by blast
  show ?case
  proof (cases "avg < thr \<and> rounds < maxR")
    case False
    then show ?thesis
      by (subst refine_loop.simps) auto
  next
    case True
    show ?thesis
      using True x "1.IH" "1.prems"
      by (subst refine_loop.simps) (auto simp: Let_def)
  qed
qed

text \<open>
  Both branches of a round on the example pages: a replacement with the same average
  (0 against 0) is accepted, one with a lower average (0 against 0.075) is rejected.
\<close>

theorem refine_round_witness:
  "(0::rat) < lit (75 / 100) \<and> (0::nat) < 2 \<and> route_pages 0 = Inr page_two \<and>
   (0::rat) \<le> avg_of (validate (JStr page_two)) \<and>
   refine_loop route_pages 2 (lit (75 / 100)) 0 (JStr page_one) (validate (JStr page_one)) 0 0 =
   refine_loop route_pages 2 (lit (75 / 100)) 1 (JStr page_two) (validate (JStr page_two))
     (avg_of (validate (JStr page_two))) 1 \<and>
   lit (75 / 1000) < lit (75 / 100) \<and>
   avg_of (validate (JStr page_two)) < lit (75 / 1000) \<and>
   refine_loop route_pages 2 (lit (75 / 100)) 0 (JStr page_button) (validate (JStr page_button))
     (lit (75 / 1000)) 0 =
   Inr (JObj (JStr page_button) (validate (JStr page_button)) 1 True, 1)"
proof -
  have h1: "(0::rat) < lit (75 / 100)" and h1': "lit (75 / 1000) < lit (75 / 100)"
    using example_means by simp_all
  have h2: "(0::nat) < 2" by simp
  have h3: "route_pages 0 = Inr page_two" by (simp add: route_pages_def)
  have h4: "(0::rat) \<le> avg_of (validate (JStr page_two))"
    using example_means by (simp add: validate_page_two)
  have h5: "avg_of (validate (JStr page_two)) < lit (75 / 1000)"
    using example_means by (simp add: validate_page_two)
  note accept = refine_round_accepts_not_worse
    [where route = route_pages and k = 0 and refined = page_two and avg = 0
       and thr = "lit (75 / 100)" and rounds = 0 and maxR = 2 and current = "JStr page_one"
       and report = "validate (JStr page_one)", OF h1 h2 h3]
  note reject = refine_round_accepts_not_worse
    [where route = route_pages and k = 0 and refined = page_two and avg = "lit (75 / 1000)"
       and thr = "lit (75 / 100)" and rounds = 0 and maxR = 2 and current = "JStr page_button"
       and report = "validate (JStr page_button)", OF h1' h2 h3]
  show ?thesis
    using accept reject h1 h1' h3 h4 h5 by simp
qed

text \<open>
  Claim C3 as stated fails: every page has the average 0, so each replacement equals the
  current page in total; \<open>refine\<close> accepts both replacements, runs its two rounds and
  returns the last page, where the claim has it stop after the first round with the
  first page.
\<close>

theorem refine_accepts_equal_total:
  "avg_of (validate (JStr page_one)) = avg_of (validate (JStr page_two)) \<and>
   refine route_pages 0 (JStr page_one) \<lparr>maxRounds = None, threshold = None\<rparr> =
     Inr (JObj (JStr page_three) unscored 2 True, 2)"
  by code_simp

section \<open>Properties of the iteration chain\<close>

lemma chain_loop_ge:
  "chain_loop route maxIt thr pat i k h bh bs n hist = Inr r \<Longrightarrow> bs \<le> cscore r"
proof (induction route maxIt thr pat i k h bh bs n hist rule: chain_loop.induct)
  case (1 route maxIt thr pat i k h bh bs n hist)
  show ?case
  proof (cases "i \<le> maxIt")
    case False
    with "1.prems" show ?thesis
      by (subst (asm) chain_loop.simps) auto
  next
    case True
    then show ?thesis
      using "1.prems" "1.IH"
      by (subst (asm) chain_loop.simps)
        (fastforce simp: Let_def split: sum.splits if_splits prod.splits)
  qed
qed

text \<open>
  Claim C5. Whatever the prompt, the options and the answers of the model: when the
  iteration chain returns, its score is at least the score of the first generation
  (iteration 0).
\<close>

theorem chain_score_ge_initial:
  assumes "route 0 = Inr h" and "chain route opts = Inr r"
  shows "computeTotal (validate (JStr h)) \<le> cscore r"
  using assms
  by (auto simp: chain_def Let_def split: sum.splits if_splits dest: chain_loop_ge)

text \<open>
  A run of the chain with one iteration: the first generation scores 0.075, the
  refinement answer scores less, and the chain returns the first generation.
\<close>

theorem chain_score_witness:
  "route_chain 0 = Inr page_button \<and>
   chain route_chain \<lparr>maxIterations = Some 1, cthreshold = None, patience = None\<rparr> =
     Inr \<lparr>html = JStr page_button, cscore = lit (75 / 1000), iterations = 2,
          history = [\<lparr>iteration = 0, hscore = lit (75 / 1000), improved = True\<rparr>,
                     \<lparr>iteration = 1, hscore = 0, improved = False\<rparr>]\<rparr> \<and>
   computeTotal (validate (JStr page_button)) \<le> lit (75 / 1000)"
proof -
  have h: "route_chain 0 = Inr page_button" by (simp add: route_chain_def)
  have run: "chain route_chain \<lparr>maxIterations = Some 1, cthreshold = None, patience = None\<rparr> =
     Inr \<lparr>html = JStr page_button, cscore = lit (75 / 1000), iterations = 2,
          history = [\<lparr>iteration = 0, hscore = lit (75 / 1000), improved = True\<rparr>,
                     \<lparr>iteration = 1, hscore = 0, improved = False\<rparr>]\<rparr>"
    by code_simp
  show ?thesis
    using chain_score_ge_initial [OF h run] h run by simp
qed

text \<open>
  The chain returns whenever the model never rejects. And since \<open>html\<close> holds the object
  \<open>refine\<close> returned, which \<open>validate\<close> scores 0 on every axis, no refinement is ever
  adopted: what the chain returns is the first generation with its score.
\<close>

lemma computeTotal_unscored: "computeTotal unscored = 0"
  by code_simp

lemma computeTotal_nonneg: "0 \<le> computeTotal (validate v)"
  using validate_conatus [of v] validate_ratio [of v] validate_laetitia [of v]
    validate_natura [of v]
  by (simp add: computeTotal_def fadd_def fdiv_def fl_nonneg)

lemma chain_loop_keeps_first:
  "chain_loop route maxIt thr pat i k h bh bs n hist = Inr r \<Longrightarrow> 0 \<le> bs \<Longrightarrow>
   html r = bh \<and> cscore r = bs"
proof (induction route maxIt thr pat i k h bh bs n hist rule: chain_loop.induct)
  case (1 route maxIt thr pat i k h bh bs n hist)
  show ?case
  proof (cases "i \<le> maxIt")
    case False
    with "1.prems" show ?thesis
      by (subst (asm) chain_loop.simps) auto
  next
    case True
    from "1.prems"(1) True obtain h1 k1 where
      ref: "refine route k h \<lparr>maxRounds = None, threshold = None\<rparr> = Inr (h1, k1)"
      by (subst (asm) chain_loop.simps) (auto split: sum.splits)
    then obtain c rep m b where obj: "h1 = JObj c rep m b"
      unfolding refine_def Let_def by (auto dest: refine_loop_returns_object)
    have zero: "computeTotal (validate h1) = 0"
      by (simp add: obj validate_object computeTotal_unscored)
    have not_improved: "\<not> bs < computeTotal (validate h1)"
      using "1.prems"(2) zero by simp
    show ?thesis
      using "1.prems" True ref zero not_improved
        "1.IH" [OF True ref refl refl refl refl refl refl refl]
      by (subst (asm) chain_loop.simps) (auto simp: Let_def split: if_splits)
  qed
qed

lemma chain_returns_first_generation:
  assumes "route 0 = Inr h" and "chain route opts = Inr r"
  shows "html r = JStr h \<and> cscore r = computeTotal (validate (JStr h))"
  using assms computeTotal_nonneg [of "JStr h"]
  by (auto simp: chain_def Let_def split: sum.splits if_splits dest: chain_loop_keeps_first)

lemma chain_loop_returns:
  "\<forall>j. \<exists>x. route j = Inr x \<Longrightarrow>
   \<exists>r. chain_loop route maxIt thr pat i k h bh bs n hist = Inr r"
proof (induction route maxIt thr pat i k h bh bs n hist rule: chain_loop.induct)
  case (1 route maxIt thr pat i k h bh bs n hist)
  show ?case
  proof (cases "i \<le> maxIt")
    case False
    then show ?thesis by (subst chain_loop.simps) auto
  next
    case True
    obtain h1 k1 where
      ref: "refine route k h \<lparr>maxRounds = None, threshold = None\<rparr> = Inr (h1, k1)"
      using refine_loop_returns [OF "1.prems"] unfolding refine_def Let_def by blast
    show ?thesis
      using True ref "1.IH" [OF True ref refl refl refl refl refl refl refl _ "1.prems"]
      by (subst chain_loop.simps) (auto simp: Let_def)
  qed
qed

lemma chain_returns:
  assumes "\<forall>j. \<exists>x. route j = Inr x"
  shows "\<exists>r. chain route opts = Inr r"
proof -
  from assms obtain h where "route 0 = Inr h" by blast
  then show ?thesis
    using chain_loop_returns [OF assms] by (auto simp: chain_def Let_def)
qed

section \<open>Properties of gene tokenisation\<close>










section \<open>Properties of the cache manager\<close>

lemma map_get_map_delete: "map_get (map_delete k m) k = None"
  by (induction m) (auto simp: map_get_def map_delete_def)

lemma map_set_absent: "map_get m k = None \<Longrightarrow> map_set k e m = m @ [(k, e)]"
  by (induction m) (auto simp: map_get_def split: if_splits)

lemma map_get_map_set: "map_get (map_set k e m) k = Some e"
  by (induction m) (auto simp: map_get_def)

text \<open>
  Claim C6. \<open>set\<close> stores the value with the expiry instant \<open>now + ttl\<close>. For an entry in
  the store: a \<open>get\<close> after its expiry instant returns absent and removes the entry; a
  \<open>get\<close> up to that instant returns the stored value and puts the very same entry (same
  expiry) at the end of the store, the most recently used position, the other entries
  keeping their order.
\<close>

theorem cache_get_expiry_and_lru:
  assumes "map_get (store c) key = Some e"
  shows "(expires e < now \<longrightarrow>
            fst (cache_get c key now) = None \<and>
            map_get (store (snd (cache_get c key now))) key = None) \<and>
         (now \<le> expires e \<longrightarrow>
            fst (cache_get c key now) = Some (entry_value e) \<and>
            store (snd (cache_get c key now)) = map_delete key (store c) @ [(key, e)]) \<and>
         map_get (store (cache_set c key v ttl_opt t t')) key =
            Some \<lparr>entry_value = v, expires = t + or_int ttl_opt (ttl c), created = t'\<rparr>"
  using assms
  by (simp add: cache_get_def cache_set_def Let_def map_get_map_delete map_get_map_set
      map_set_absent)

text \<open>
  A store with the entries \<open>a\<close> (expiring at 1100) and \<open>b\<close>: a \<open>get\<close> of \<open>a\<close> at 1200
  returns absent and removes it; a \<open>get\<close> at 1050 returns its value and moves it behind
  \<open>b\<close>.
\<close>

theorem cache_get_witness:
  "map_get (store two_entries) ''a'' = Some \<lparr>entry_value = 1, expires = 1100, created = 1000\<rparr> \<and>
   fst (cache_get two_entries ''a'' 1200) = None \<and>
   map_get (store (snd (cache_get two_entries ''a'' 1200))) ''a'' = None \<and>
   fst (cache_get two_entries ''a'' 1050) = Some 1 \<and>
   store (snd (cache_get two_entries ''a'' 1050)) =
     [(''b'', \<lparr>entry_value = 2, expires = 1110, created = 1010\<rparr>),
      (''a'', \<lparr>entry_value = 1, expires = 1100, created = 1000\<rparr>)]"
proof -
  have st: "store two_entries =
     [(''a'', \<lparr>entry_value = 1, expires = 1100, created = 1000\<rparr>),
      (''b'', \<lparr>entry_value = 2, expires = 1110, created = 1010\<rparr>)]"
    by (simp add: two_entries_def cache_set_def new_cache_def or_int_def map_get_def
        DEFAULT_MAX_ENTRIES_def Let_def)
  have h: "map_get (store two_entries) ''a'' =
             Some \<lparr>entry_value = 1, expires = 1100, created = 1000\<rparr>"
    by (simp add: st map_get_def)
  show ?thesis
    using cache_get_expiry_and_lru [OF h, of 1200] cache_get_expiry_and_lru [OF h, of 1050] h
    by (simp add: st map_delete_def)
qed

section \<open>Properties of the rate limiter\<close>


lemma check_windowMs [simp]: "windowMs (snd (check l ip now sweep)) = windowMs l"
  by (simp add: check_def Let_def)

lemma check_maxRequests [simp]: "maxRequests (snd (check l ip now sweep)) = maxRequests l"
  by (simp add: check_def Let_def)

lemma check_allowed:
  "allowed (fst (check l ip now sweep)) \<longleftrightarrow>
   int (length (filter (\<lambda>t. now - windowMs l < t) (hits_of l ip))) < maxRequests l"
  by (simp add: check_def Let_def)

lemma filter_gt_all_le: "list_all (\<lambda>t. t \<le> c) xs \<Longrightarrow> filter (\<lambda>t. (c::int) < t) xs = []"
  by (induction xs) auto

lemma filter_gt_twice: "(c0::int) \<le> c \<Longrightarrow> filter (\<lambda>t. c < t) (filter (\<lambda>t. c0 < t) xs) = filter (\<lambda>t. c < t) xs"
  by (induction xs) auto

lemma check_hits_same:
  "hits_of (snd (check l ip now sweep)) ip =
     (let h1 = filter (\<lambda>t. now - windowMs l < t) (hits_of l ip) @
               (if allowed (fst (check l ip now sweep)) then [now] else [])
      in if sweep \<and> list_all (\<lambda>t. t \<le> now - windowMs l) h1 then [] else h1)"
  by (simp add: check_def Let_def hits_of_def cleanup_def)

lemma check_hits_other:
  "ip' \<noteq> ip \<Longrightarrow>
   hits_of (snd (check l ip' now sweep)) ip =
     (if sweep \<and> list_all (\<lambda>t. t \<le> now - windowMs l) (hits_of l ip) then [] else hits_of l ip)"
  by (simp add: check_def Let_def hits_of_def cleanup_def split: option.splits)

lemma check_hits_denied:
  assumes "\<not> allowed (fst (check l ip now sweep))"
  shows "hits_of (snd (check l ip now sweep)) ip =
         filter (\<lambda>t. now - windowMs l < t) (hits_of l ip)"
proof -
  let ?f = "filter (\<lambda>t. now - windowMs l < t) (hits_of l ip)"
  have "list_all (\<lambda>t. t \<le> now - windowMs l) ?f \<Longrightarrow> ?f = []"
    using filter_gt_all_le [of "now - windowMs l" ?f] by simp
  then show ?thesis
    using assms by (auto simp: check_hits_same Let_def)
qed

lemma check_filter_same:
  "filter (\<lambda>t. now - windowMs l < t) (hits_of (snd (check l ip now sweep)) ip) =
   filter (\<lambda>t. now - windowMs l < t)
     (hits_of l ip @ (if allowed (fst (check l ip now sweep)) then [now] else []))"
proof -
  let ?c = "now - windowMs l"
  let ?h1 = "filter (\<lambda>t. ?c < t) (hits_of l ip) @
             (if allowed (fst (check l ip now sweep)) then [now] else [])"
  have "filter (\<lambda>t. ?c < t) (hits_of (snd (check l ip now sweep)) ip) =
        filter (\<lambda>t. ?c < t) (if sweep \<and> list_all (\<lambda>t. t \<le> ?c) ?h1 then [] else ?h1)"
    by (simp only: check_hits_same Let_def)
  also have "\<dots> = filter (\<lambda>t. ?c < t) ?h1"
    using filter_gt_all_le [of ?c ?h1] by (cases "sweep \<and> list_all (\<lambda>t. t \<le> ?c) ?h1") simp_all
  also have "\<dots> = filter (\<lambda>t. ?c < t)
     (hits_of l ip @ (if allowed (fst (check l ip now sweep)) then [now] else []))"
    by simp
  finally show ?thesis .
qed

lemma check_filter_other:
  "ip' \<noteq> ip \<Longrightarrow>
   filter (\<lambda>t. now - windowMs l < t) (hits_of (snd (check l ip' now sweep)) ip) =
   filter (\<lambda>t. now - windowMs l < t) (hits_of l ip)"
  by (auto simp: check_hits_other filter_gt_all_le)

lemma granted_Nil [simp]: "granted ip [] rs = []"
  by (simp add: granted_def)

lemma granted_Cons [simp]:
  "granted ip ((ip', now, sw) # reqs) (r # rs) =
   (if ip' = ip \<and> allowed r then [now] else []) @ granted ip reqs rs"
  by (simp add: granted_def)

lemma checks_Cons_fst:
  "fst (checks l ((ip', now, sw) # reqs)) =
   fst (check l ip' now sw) # fst (checks (snd (check l ip' now sw)) reqs)"
  by (simp add: checks.simps Let_def split: prod.splits)

lemma checks_Cons_snd:
  "snd (checks l ((ip', now, sw) # reqs)) = snd (checks (snd (check l ip' now sw)) reqs)"
  by (simp add: checks.simps Let_def split: prod.splits)

lemma checks_maxRequests [simp]: "maxRequests (snd (checks l reqs)) = maxRequests l"
proof (induction reqs arbitrary: l)
  case Nil
  show ?case by simp
next
  case (Cons q reqs)
  obtain ip' now sw where q: "q = (ip', now, sw)" by (cases q) auto
  show ?case unfolding q checks_Cons_snd by (simp add: Cons.IH)
qed

lemma checks_windowMs [simp]: "windowMs (snd (checks l reqs)) = windowMs l"
proof (induction reqs arbitrary: l)
  case Nil
  show ?case by simp
next
  case (Cons q reqs)
  obtain ip' now sw where q: "q = (ip', now, sw)" by (cases q) auto
  show ?case unfolding q checks_Cons_snd by (simp add: Cons.IH)
qed

lemma length_filter_mono:
  "(\<And>x. x \<in> set xs \<Longrightarrow> P x \<Longrightarrow> Q x) \<Longrightarrow> length (filter P xs) \<le> length (filter Q xs)"
  by (induction xs) auto

lemma window_extend:
  fixes P :: "int list"
  assumes bounded: "\<forall>T. int (length (filter (\<lambda>t. T - W < t \<and> t \<le> T) P)) \<le> M"
    and room: "int (length (filter (\<lambda>t. now - W < t) P)) < M"
  shows "int (length (filter (\<lambda>t. T - W < t \<and> t \<le> T) (P @ [now]))) \<le> M"
proof (cases "now \<le> T")
  case False
  then have "filter (\<lambda>t. T - W < t \<and> t \<le> T) (P @ [now]) = filter (\<lambda>t. T - W < t \<and> t \<le> T) P"
    by simp
  then show ?thesis using bounded by simp
next
  case True
  have "length (filter (\<lambda>t. T - W < t \<and> t \<le> T) P) \<le> length (filter (\<lambda>t. now - W < t) P)"
    using True by (intro length_filter_mono) auto
  moreover have "length (filter (\<lambda>t. T - W < t \<and> t \<le> T) (P @ [now])) \<le>
                 length (filter (\<lambda>t. T - W < t \<and> t \<le> T) P) + 1"
    by simp
  ultimately show ?thesis using room by linarith
qed

lemma checks_window:
  assumes "sorted (map (\<lambda>q. fst (snd q)) reqs)"
    and "\<forall>q\<in>set reqs. c0 \<le> fst (snd q) - windowMs l"
    and "filter (\<lambda>t. c0 < t) (hits_of l ip) = filter (\<lambda>t. c0 < t) P"
    and "\<forall>T. int (length (filter (\<lambda>t. T - windowMs l < t \<and> t \<le> T) P)) \<le> maxRequests l"
  shows "int (length (filter (\<lambda>t. T - windowMs l < t \<and> t \<le> T)
           (P @ granted ip reqs (fst (checks l reqs))))) \<le> maxRequests l"
  using assms
proof (induction reqs arbitrary: l c0 P)
  case Nil
  then show ?case by simp
next
  case (Cons q reqs)
  obtain ip' now sw where q: "q = (ip', now, sw)" by (cases q) auto
  let ?W = "windowMs l"
  let ?c = "now - ?W"
  let ?r = "fst (check l ip' now sw)"
  let ?l1 = "snd (check l ip' now sw)"
  let ?P' = "P @ (if ip' = ip \<and> allowed ?r then [now] else [])"
  have c0: "c0 \<le> ?c" using Cons.prems(2) by (simp add: q)
  have inv: "filter (\<lambda>t. ?c < t) (hits_of l ip) = filter (\<lambda>t. ?c < t) P"
    using Cons.prems(3) filter_gt_twice [OF c0, of "hits_of l ip"] filter_gt_twice [OF c0, of P]
    by simp
  have sorted_tl: "sorted (map (\<lambda>q. fst (snd q)) reqs)"
    using Cons.prems(1) by simp
  have later: "\<forall>q\<in>set reqs. ?c \<le> fst (snd q) - windowMs ?l1"
    using Cons.prems(1) by (auto simp: q)
  have inv': "filter (\<lambda>t. ?c < t) (hits_of ?l1 ip) = filter (\<lambda>t. ?c < t) ?P'"
  proof (cases "ip' = ip")
    case True
    then show ?thesis using inv by (simp add: check_filter_same)
  next
    case False
    then show ?thesis using inv by (simp add: check_filter_other)
  qed
  have bounded': "\<forall>T. int (length (filter (\<lambda>t. T - windowMs ?l1 < t \<and> t \<le> T) ?P')) \<le> maxRequests ?l1"
  proof (cases "ip' = ip \<and> allowed ?r")
    case False
    then show ?thesis using Cons.prems(4) by auto
  next
    case True
    then have "int (length (filter (\<lambda>t. ?c < t) (hits_of l ip))) < maxRequests l"
      by (auto simp: check_allowed)
    then have room: "int (length (filter (\<lambda>t. ?c < t) P)) < maxRequests l"
      using inv by simp
    from True have P': "?P' = P @ [now]" by auto
    show ?thesis
      unfolding P' check_windowMs check_maxRequests
      using window_extend [OF Cons.prems(4) room] by blast
  qed
  have "int (length (filter (\<lambda>t. T - windowMs ?l1 < t \<and> t \<le> T)
           (?P' @ granted ip reqs (fst (checks ?l1 reqs))))) \<le> maxRequests ?l1"
    by (rule Cons.IH [OF sorted_tl later inv' bounded'])
  then show ?case
    by (simp add: q checks_Cons_fst)
qed

lemma check_denied_reset_pos:
  assumes "1 \<le> maxRequests l" and "\<not> allowed (fst (check l ip now sweep))"
  shows "0 < resetMs (fst (check l ip now sweep))"
proof -
  let ?f = "filter (\<lambda>t. now - windowMs l < t) (hits_of l ip)"
  from assms have len: "1 \<le> length ?f" by (simp add: check_allowed)
  then obtain t ts where f: "?f = t # ts" by (cases ?f) auto
  then have "t \<in> set ?f" by simp
  then have "now - windowMs l < t" by simp
  moreover have "resetMs (fst (check l ip now sweep)) = t + windowMs l - now"
    using assms(2) f by (simp add: check_def Let_def)
  ultimately show ?thesis by simp
qed

text \<open>
  Claim C7, as the code has it. On a limiter with \<open>maxRequests\<close> of at least 1, started
  empty and asked at clock readings that never go back: for every address and every window
  \<open>(T - windowMs, T]\<close>, at most \<open>maxRequests\<close> of the checks with a timestamp in the window
  are granted; and a request that the limiter then denies is answered with status 429 and
  a \<open>retryAfterMs\<close> above 0.
\<close>

theorem rate_limiter_window_and_denial:
  assumes "1 \<le> maxRequests l" and "windows l = (\<lambda>ip. None)"
    and "sorted (map (\<lambda>q. fst (snd q)) reqs)"
  shows "int (length (filter (\<lambda>t. T - windowMs l < t \<and> t \<le> T)
            (granted ip reqs (fst (checks l reqs))))) \<le> maxRequests l \<and>
         (method \<noteq> ''OPTIONS'' \<and>
          \<not> allowed (fst (check (snd (checks l reqs)) (or_default addr ''unknown'') now sweep)) \<longrightarrow>
            (\<exists>resp r. fst (rate_limit_gate (snd (checks l reqs)) method addr now sweep) = Some resp \<and>
               status resp = 429 \<and> retryAfterMs resp = Some r \<and> 0 < r))"
proof
  show "int (length (filter (\<lambda>t. T - windowMs l < t \<and> t \<le> T)
            (granted ip reqs (fst (checks l reqs))))) \<le> maxRequests l"
  proof (cases reqs)
    case Nil
    then show ?thesis using assms(1) by simp
  next
    case (Cons q qs)
    define c0 where "c0 = fst (snd q) - windowMs l"
    have 1: "\<forall>q\<in>set reqs. c0 \<le> fst (snd q) - windowMs l"
      using assms(3) Cons by (auto simp: c0_def)
    have 2: "filter (\<lambda>t. c0 < t) (hits_of l ip) = filter (\<lambda>t. c0 < t) []"
      using assms(2) by (simp add: hits_of_def)
    have 3: "\<forall>T. int (length (filter (\<lambda>t. T - windowMs l < t \<and> t \<le> T) [])) \<le> maxRequests l"
      using assms(1) by simp
    show ?thesis using checks_window [OF assms(3) 1 2 3, of T] by simp
  qed
next
  let ?l2 = "snd (checks l reqs)"
  show "method \<noteq> ''OPTIONS'' \<and>
          \<not> allowed (fst (check ?l2 (or_default addr ''unknown'') now sweep)) \<longrightarrow>
            (\<exists>resp r. fst (rate_limit_gate ?l2 method addr now sweep) = Some resp \<and>
               status resp = 429 \<and> retryAfterMs resp = Some r \<and> 0 < r)"
  proof
    assume a: "method \<noteq> ''OPTIONS'' \<and>
          \<not> allowed (fst (check ?l2 (or_default addr ''unknown'') now sweep))"
    have "1 \<le> maxRequests ?l2" using assms(1) by simp
    with a have "0 < resetMs (fst (check ?l2 (or_default addr ''unknown'') now sweep))"
      by (intro check_denied_reset_pos) auto
    with a show "\<exists>resp r. fst (rate_limit_gate ?l2 method addr now sweep) = Some resp \<and>
               status resp = 429 \<and> retryAfterMs resp = Some r \<and> 0 < r"
      by (simp add: rate_limit_gate_def Let_def case_prod_beta)
  qed
qed

lemma checks_denied_subset:
  "granted ip reqs (fst (checks l reqs)) = [] \<Longrightarrow>
   set (hits_of (snd (checks l reqs)) ip) \<subseteq> set (hits_of l ip)"
proof (induction reqs arbitrary: l)
  case Nil
  show ?case by simp
next
  case (Cons q reqs)
  obtain ip' now sw where q: "q = (ip', now, sw)" by (cases q) auto
  let ?l1 = "snd (check l ip' now sw)"
  from Cons.prems have rest: "granted ip reqs (fst (checks ?l1 reqs)) = []"
    and first: "\<not> (ip' = ip \<and> allowed (fst (check l ip' now sw)))"
    by (auto simp: q checks_Cons_fst split: if_splits)
  have "set (hits_of ?l1 ip) \<subseteq> set (hits_of l ip)"
  proof (cases "ip' = ip")
    case True
    with first show ?thesis by (auto simp: check_hits_denied)
  next
    case False
    then show ?thesis by (auto simp: check_hits_other)
  qed
  with Cons.IH [OF rest] show ?case
    by (auto simp: q checks_Cons_snd)
qed

text \<open>
  Claim C10. A denied check records nothing: the timestamps of the address are the old
  ones without those that left the window. And after any run of checks in which every
  check of the address was denied, a check at a time when \<open>windowMs\<close> has passed since
  each recorded request of the address is granted (the limiter grants at all, that is
  \<open>maxRequests\<close> is at least 1).
\<close>

theorem denied_check_not_recorded:
  assumes "1 \<le> maxRequests l"
  shows "(\<not> allowed (fst (check l ip now sweep)) \<longrightarrow>
            hits_of (snd (check l ip now sweep)) ip =
            filter (\<lambda>t. now - windowMs l < t) (hits_of l ip)) \<and>
         (granted ip reqs (fst (checks l reqs)) = [] \<and>
          (\<forall>t\<in>set (hits_of l ip). t + windowMs l \<le> now') \<longrightarrow>
            allowed (fst (check (snd (checks l reqs)) ip now' sweep')))"
proof (intro conjI impI)
  assume "\<not> allowed (fst (check l ip now sweep))"
  then show "hits_of (snd (check l ip now sweep)) ip =
            filter (\<lambda>t. now - windowMs l < t) (hits_of l ip)"
    by (rule check_hits_denied)
next
  let ?l2 = "snd (checks l reqs)"
  assume a: "granted ip reqs (fst (checks l reqs)) = [] \<and>
          (\<forall>t\<in>set (hits_of l ip). t + windowMs l \<le> now')"
  then have "set (hits_of ?l2 ip) \<subseteq> set (hits_of l ip)"
    by (intro checks_denied_subset) simp
  with a have "\<forall>t\<in>set (hits_of ?l2 ip). \<not> now' - windowMs l < t"
    by fastforce
  then have "filter (\<lambda>t. now' - windowMs ?l2 < t) (hits_of ?l2 ip) = []"
    by (simp add: filter_empty_conv)
  then show "allowed (fst (check ?l2 ip now' sweep'))"
    using assms by (simp add: check_allowed)
qed

text \<open>
  Claim C7 as stated fails on a limiter with \<open>maxRequests = 0\<close>: every request is denied,
  no timestamp is recorded, and the 429 response carries \<open>retryAfterMs = 0\<close>.
\<close>

theorem zero_limit_retry_after_zero:
  "fst (rate_limit_gate (new_limiter None (Some 0)) ''GET'' (Some client) 1000 False) =
   Some \<lparr>status = 429, rateLimitRemaining = Some 0, retryAfterMs = Some 0\<rparr>"
  by (simp add: rate_limit_gate_def new_limiter_def check_def hits_of_def or_default_def
      client_def Let_def)

text \<open>
  Three immediate requests of one address on a limiter of 2 requests per minute: two are
  granted, the third is denied, and a fourth is answered with 429 and a positive
  \<open>retryAfterMs\<close>.
\<close>

lemma three_requests_run:
  "map allowed (fst (checks two_per_minute three_requests)) = [True, True, False]"
  "hits_of (snd (checks two_per_minute three_requests)) client = [1000, 1001]"
  "maxRequests two_per_minute = 2"
  "windowMs two_per_minute = 60000"
  by code_simp+

theorem rate_limiter_witness:
  "1 \<le> maxRequests two_per_minute \<and>
   windows two_per_minute = (\<lambda>ip. None) \<and>
   sorted (map (\<lambda>q. fst (snd q)) three_requests) \<and>
   map allowed (fst (checks two_per_minute three_requests)) = [True, True, False] \<and>
   int (length (filter (\<lambda>t. 1002 - windowMs two_per_minute < t \<and> t \<le> 1002)
          (granted client three_requests (fst (checks two_per_minute three_requests))))) \<le>
     maxRequests two_per_minute \<and>
   ''GET'' \<noteq> ''OPTIONS'' \<and>
   \<not> allowed (fst (check (snd (checks two_per_minute three_requests))
                  (or_default (Some client) ''unknown'') 1003 False)) \<and>
   (\<exists>resp r. fst (rate_limit_gate (snd (checks two_per_minute three_requests)) ''GET''
                  (Some client) 1003 False) = Some resp \<and>
            status resp = 429 \<and> retryAfterMs resp = Some r \<and> 0 < r)"
proof -
  have h1: "1 \<le> maxRequests two_per_minute"
    by (simp add: two_per_minute_def new_limiter_def)
  have h2: "windows two_per_minute = (\<lambda>ip. None)"
    by (simp add: two_per_minute_def new_limiter_def)
  have h3: "sorted (map (\<lambda>q. fst (snd q)) three_requests)"
    by (simp add: three_requests_def)
  have h4: "''GET'' \<noteq> ''OPTIONS''" by simp
  have h5: "\<not> allowed (fst (check (snd (checks two_per_minute three_requests))
                  (or_default (Some client) ''unknown'') 1003 False))"
    by code_simp
  show ?thesis
    using rate_limiter_window_and_denial [OF h1 h2 h3, of 1002 client "''GET''" "Some client" 1003 False]
      h1 h2 h3 h5 three_requests_run(1)
    by simp
qed

text \<open>
  After these requests, two more denied checks change nothing, and a check one window
  after the recorded requests is granted.
\<close>

theorem denied_check_witness:
  "1 \<le> maxRequests (snd (checks two_per_minute three_requests)) \<and>
   \<not> allowed (fst (check (snd (checks two_per_minute three_requests)) client 1003 False)) \<and>
   hits_of (snd (check (snd (checks two_per_minute three_requests)) client 1003 False)) client =
     [1000, 1001] \<and>
   granted client [(client, 1003, False), (client, 1004, True)]
     (fst (checks (snd (checks two_per_minute three_requests))
             [(client, 1003, False), (client, 1004, True)])) = [] \<and>
   allowed (fst (check (snd (checks (snd (checks two_per_minute three_requests))
                               [(client, 1003, False), (client, 1004, True)]))
                  client 61001 False))"
proof -
  let ?l = "snd (checks two_per_minute three_requests)"
  let ?reqs = "[(client, 1003, False), (client, 1004, True)]"
  have h1: "1 \<le> maxRequests ?l"
    by (simp add: three_requests_run)
  have h2: "\<not> allowed (fst (check ?l client 1003 False))"
    by code_simp
  have h3: "granted client ?reqs (fst (checks ?l ?reqs)) = []"
    by code_simp
  have h4: "\<forall>t\<in>set (hits_of ?l client). t + windowMs ?l \<le> 61001"
    by (simp add: three_requests_run)
  have w: "filter (\<lambda>t. 1003 - windowMs ?l < t) (hits_of ?l client) = [1000, 1001]"
    by (simp add: three_requests_run)
  show ?thesis
    using denied_check_not_recorded [OF h1, of client 1003 False ?reqs 61001 False] h1 h2 h3 h4 w
    by simp
qed

section \<open>Properties of the lifecycle hooks\<close>

text \<open>
  A handler that throws a value other than \<open>null\<close> or \<open>undefined\<close>: the failure is
  appended to the array of \<open>_hookErrors\<close> (a new one if the state had none), the \<open>onError\<close>
  handlers run on a copy of the state (unless the hook point is \<open>onError\<close>), and the loop
  goes on with the remaining handlers, on the store the nested run left.
\<close>

lemma run_handlers_caught:
  assumes "fn h st state = ((st1, state1), Threw (ThrownValue message))"
    and "ensure_array st1 state1 = (st2, state2, a)"
  shows "run_handlers hooks hookName (h # hs) st state =
     (let st3 = push_error st2 a \<lparr>hook = hookName, handler = name h, error = message\<rparr>
      in if hookName = ''onError'' then run_handlers hooks hookName hs st3 state2
         else (case run hooks ''onError'' st3
                      (state2\<lparr>currentError := Some (ThrownValue message),
                              failedHook := Some hookName\<rparr>) of
                 Inl e \<Rightarrow> Inl e
               | Inr (st4, copy) \<Rightarrow> run_handlers hooks hookName hs st4 state2))"
  using assms by (simp add: run_def Let_def split: option.splits)

lemma push_error_arrays:
  "arrays (push_error st a e) a = arrays st a @ [e] \<and>
   (\<forall>b. b \<noteq> a \<longrightarrow> arrays (push_error st a e) b = arrays st b)"
  by (simp add: push_error_def)

text \<open>
  When no registered handler throws \<open>null\<close> or \<open>undefined\<close>, \<open>run\<close> goes through all
  handlers and returns a state.
\<close>

lemma run_onError_total:
  "\<forall>h\<in>set hs. \<forall>st s r. fn h st s \<noteq> (r, Threw ThrownNullish) \<Longrightarrow>
   \<exists>r. run_handlers hooks ''onError'' hs st state = Inr r"
proof (induction hs arbitrary: st state)
  case Nil
  show ?case by simp
next
  case (Cons h hs)
  obtain st1 state1 out where f: "fn h st state = ((st1, state1), out)"
    by (cases "fn h st state") auto
  have tl: "\<forall>h\<in>set hs. \<forall>st s r. fn h st s \<noteq> (r, Threw ThrownNullish)"
    using Cons.prems by simp
  show ?case
  proof (cases out)
    case (Returned result)
    then show ?thesis using f Cons.IH [OF tl] by simp
  next
    case (Threw err)
    with f Cons.prems obtain message where err: "err = ThrownValue message"
      by (cases err) auto
    obtain st2 state2 a where e: "ensure_array st1 state1 = (st2, state2, a)"
      by (cases "ensure_array st1 state1") auto
    show ?thesis
      using f Threw err e Cons.IH [OF tl] by (simp add: Let_def)
  qed
qed

lemma run_handlers_total:
  assumes "\<forall>h\<in>set hs. \<forall>st s r. fn h st s \<noteq> (r, Threw ThrownNullish)"
    and "\<forall>ehs. hooks ''onError'' = Some ehs \<longrightarrow>
           (\<forall>h\<in>set ehs. \<forall>st s r. fn h st s \<noteq> (r, Threw ThrownNullish))"
  shows "\<exists>r. run_handlers hooks hookName hs st state = Inr r"
  using assms(1)
proof (induction hs arbitrary: st state)
  case Nil
  show ?case by simp
next
  case (Cons h hs)
  obtain st1 state1 out where f: "fn h st state = ((st1, state1), out)"
    by (cases "fn h st state") auto
  have tl: "\<forall>h\<in>set hs. \<forall>st s r. fn h st s \<noteq> (r, Threw ThrownNullish)"
    using Cons.prems by simp
  show ?case
  proof (cases out)
    case (Returned result)
    then show ?thesis using f Cons.IH [OF tl] by simp
  next
    case (Threw err)
    with f Cons.prems obtain message where err: "err = ThrownValue message"
      by (cases err) auto
    obtain st2 state2 a where e: "ensure_array st1 state1 = (st2, state2, a)"
      by (cases "ensure_array st1 state1") auto
    define st3 where
      "st3 = push_error st2 a \<lparr>hook = hookName, handler = name h, error = message\<rparr>"
    let ?copy = "state2\<lparr>currentError := Some (ThrownValue message), failedHook := Some hookName\<rparr>"
    have "\<exists>r. run hooks ''onError'' st3 ?copy = Inr r"
    proof (cases "hooks ''onError''")
      case None
      then show ?thesis by (simp add: run_def)
    next
      case (Some ehs)
      then show ?thesis
        using assms(2) run_onError_total [of ehs hooks st3 ?copy] by (simp add: run_def)
    qed
    then obtain st4 copy where n: "run hooks ''onError'' st3 ?copy = Inr (st4, copy)"
      by auto
    show ?thesis
      unfolding run_handlers_caught [OF f [unfolded Threw err] e]
      using n Cons.IH [OF tl] by (auto simp: Let_def st3_def)
  qed
qed

text \<open>
  The copy handed to the \<open>onError\<close> handlers shares the array: when an \<open>onError\<close> handler
  throws as well, its failure is in the \<open>_hookErrors\<close> of the state that \<open>run\<close> returns.
\<close>

lemma nested_failure_shares_array:
  "(case run reporting_hooks ''beforeGenerate'' empty_store initial_state of
      Inl e \<Rightarrow> None
    | Inr (st, state) \<Rightarrow> Some (payload state, hookErrors state, arrays st 0)) =
   Some (1, Some 0,
         [\<lparr>hook = ''beforeGenerate'', handler = ''first'', error = Some ''a''\<rparr>,
          \<lparr>hook = ''onError'', handler = ''reporter'', error = Some ''b''\<rparr>])"
  by (simp add: run_def reporting_hooks_def throwing_handler_def counting_handler_def
      empty_store_def initial_state_def ensure_array_def push_error_def Let_def)

text \<open>
  Claim C8 fails on the code. A handler that throws \<open>undefined\<close> is followed by a second
  handler at the same hook point; the \<open>catch\<close> block raises a TypeError on
  \<open>err.message\<close>, \<open>run\<close> rejects, and the second handler never runs.
\<close>

theorem run_rejects_on_nullish_throw:
  "run failing_hooks ''beforeGenerate'' empty_store initial_state = Inl TypeError"
  by (simp add: run_def failing_hooks_def nullish_handler_def ensure_array_def
      initial_state_def split: prod.splits)

end
